theory Spec2Isabelle
  imports Complex_Main "HOL-Library.Sublist" "HOL-Library.Multiset" "HOL-Library.Log_Nat"
begin

section \<open>JavaScript strings\<close>

text \<open>
  A string is the list of its code units. The model covers code units below 256, which
  is what \<^typ>\<open>char\<close> holds; \<open>length\<close> is then the \<open>.length\<close> of the source.
  On that range \<open>String.prototype.toLowerCase\<close> maps \<open>A\<close>..\<open>Z\<close> and the capital
  letters U+00C0..U+00DE (U+00D7, the multiplication sign, apart) to the code unit 32
  above and leaves every other code unit alone.
\<close>

definition lower_char :: "char \<Rightarrow> char" where
  "lower_char c =
     (let n = (of_char c :: nat)
      in if (65 \<le> n \<and> n \<le> 90) \<or> (192 \<le> n \<and> n \<le> 222 \<and> n \<noteq> 215)
         then char_of (n + 32) else c)"

definition toLowerCase :: "string \<Rightarrow> string" where
  "toLowerCase s = map lower_char s"

text \<open>\<open>text.includes(kw)\<close>: \<open>kw\<close> occurs in \<open>text\<close> as a contiguous run.\<close>

fun str_includes :: "string \<Rightarrow> string \<Rightarrow> bool" where
  "str_includes [] kw = (kw = [])"
| "str_includes (c # cs) kw = (prefix kw (c # cs) \<or> str_includes cs kw)"

text \<open>\<open>arr.join(sep)\<close>.\<close>

fun join :: "string \<Rightarrow> string list \<Rightarrow> string" where
  "join sep [] = []"
| "join sep [x] = x"
| "join sep (x # y # ys) = x @ sep @ join sep (y # ys)"

text \<open>
  A template literal \<open>`${v}`\<close> renders a string as itself and a missing property
  (\<open>undefined\<close>) as the nine letters \<open>undefined\<close>.
\<close>

fun tmpl :: "string option \<Rightarrow> string" where
  "tmpl None = ''undefined''"
| "tmpl (Some s) = s"

text \<open>\<open>v || ''\<close> on a string or missing \<open>v\<close>.\<close>

fun or_empty :: "string option \<Rightarrow> string" where
  "or_empty None = []"
| "or_empty (Some s) = s"

section \<open>Records\<close>

text \<open>
  One harvested item, as the two crawlers build it. A property that one of the
  producers leaves out (a scraped link has no \<open>id\<close>, \<open>category\<close>, \<open>tags\<close>,
  \<open>viewCount\<close>, \<open>downloadCount\<close>) is \<open>None\<close>, the \<open>undefined\<close> of the source.
  The listing's attributes have the types of the catalogue interface: strings, a
  sequence of strings, integer counts.
\<close>

record dataset =
  ds_id :: "string option"
  name :: "string option"
  description :: "string option"
  category :: "string option"
  tags :: "string list option"
  viewCount :: "int option"
  downloadCount :: "int option"
  createdAt :: "string option"
  updatedAt :: "string option"
  displayType :: "string option"
  url :: string
  source :: "string option"
  sourceType :: "string option"
  apiUrl :: "string option"

section \<open>Quality scores\<close>

text \<open>
  \<open>ds.description && ds.description.length > n\<close>: a missing or empty description is
  falsy, and the comparison is made only on a non-empty one.
\<close>

definition desc_longer :: "dataset \<Rightarrow> nat \<Rightarrow> bool" where
  "desc_longer ds n =
     (case description ds of None \<Rightarrow> False | Some d \<Rightarrow> d \<noteq> [] \<and> length d > n)"

text \<open>\<open>v > n\<close> on a number or a missing \<open>v\<close>: \<open>undefined > n\<close> is false.\<close>

definition num_gt :: "int option \<Rightarrow> int \<Rightarrow> bool" where
  "num_gt v n = (case v of None \<Rightarrow> False | Some x \<Rightarrow> x > n)"

text \<open>\<open>ds.tags && ds.tags.length > 0\<close>: an array is truthy also when it is empty.\<close>

definition has_tags :: "dataset \<Rightarrow> bool" where
  "has_tags ds = (case tags ds of None \<Rightarrow> False | Some ts \<Rightarrow> length ts > 0)"

text \<open>
  The body of the \<open>map\<close> callback of \<open>generateQualityScores\<close>, the same statements in
  both crawlers: \<open>score\<close> starts at 50 and each \<open>if\<close> adds to it in turn.
\<close>

definition raw_score :: "dataset \<Rightarrow> int" where
  "raw_score ds =
     (let score = 50;
          score = (if desc_longer ds 100 then score + 15 else score);
          score = (if desc_longer ds 300 then score + 10 else score);
          score = (if num_gt (viewCount ds) 100 then score + 10 else score);
          score = (if num_gt (downloadCount ds) 50 then score + 10 else score);
          score = (if has_tags ds then score + 5 else score)
      in score)"

text \<open>\<open>qualityScore: Math.min(100, score)\<close>.\<close>

definition qualityScore_of :: "dataset \<Rightarrow> int" where
  "qualityScore_of ds = min 100 (raw_score ds)"

record metrics =
  hasDescription :: bool
  descLength :: nat
  m_viewCount :: "int option"
  m_downloadCount :: "int option"
  hasTags :: bool

record score_entry =
  se_id :: "string option"
  se_name :: "string option"
  qualityScore :: int
  se_metrics :: metrics

text \<open>
  \<open>TexasDataCrawler.generateQualityScores\<close>: one entry per legal dataset, in order.
  (\<open>averageScore\<close>, a floating-point quotient, is left out.)
\<close>

definition score_entry_of :: "dataset \<Rightarrow> score_entry" where
  "score_entry_of ds =
     \<lparr> se_id = ds_id ds,
       se_name = name ds,
       qualityScore = qualityScore_of ds,
       se_metrics =
         \<lparr> hasDescription = (case description ds of None \<Rightarrow> False | Some d \<Rightarrow> d \<noteq> []),
           descLength = (case description ds of None \<Rightarrow> 0 | Some d \<Rightarrow> length d),
           m_viewCount = viewCount ds,
           m_downloadCount = downloadCount ds,
           hasTags = (case tags ds of None \<Rightarrow> False | Some ts \<Rightarrow> length ts > 0) \<rparr> \<rparr>"

definition generateQualityScores :: "dataset list \<Rightarrow> score_entry list" where
  "generateQualityScores legal = map score_entry_of legal"

text \<open>\<open>a || b\<close> on strings: the first operand unless it is missing or empty.\<close>

fun str_or :: "string option \<Rightarrow> string \<Rightarrow> string" where
  "str_or None b = b"
| "str_or (Some a) b = (if a = [] then b else a)"

record score_entry_m =
  sm_id :: string
  sm_name :: "string option"
  sm_qualityScore :: int

text \<open>\<open>TexasMultiSourceCrawler.generateQualityScores\<close>, with \<open>id: ds.id || ds.url\<close>.\<close>

definition score_entry_m_of :: "dataset \<Rightarrow> score_entry_m" where
  "score_entry_m_of ds =
     \<lparr> sm_id = str_or (ds_id ds) (url ds),
       sm_name = name ds,
       sm_qualityScore = qualityScore_of ds \<rparr>"

definition generateQualityScores_m :: "dataset list \<Rightarrow> score_entry_m list" where
  "generateQualityScores_m legal = map score_entry_m_of legal"

text \<open>
  The score as the specification words it, over the attributes it names: the length of
  the description, the two counts and the number of tags, an absent attribute counting
  as empty or zero.
\<close>

definition spec_score :: "nat \<Rightarrow> int \<Rightarrow> int \<Rightarrow> nat \<Rightarrow> int" where
  "spec_score desc_len views downloads tag_count =
     min 100
       (50 + (if desc_len > 100 then 15 else 0) + (if desc_len > 300 then 10 else 0)
           + (if views > 100 then 10 else 0) + (if downloads > 50 then 10 else 0)
           + (if tag_count > 0 then 5 else 0))"

definition desc_len :: "dataset \<Rightarrow> nat" where
  "desc_len ds = (case description ds of None \<Rightarrow> 0 | Some d \<Rightarrow> length d)"

definition views_of :: "dataset \<Rightarrow> int" where
  "views_of ds = (case viewCount ds of None \<Rightarrow> 0 | Some v \<Rightarrow> v)"

definition downloads_of :: "dataset \<Rightarrow> int" where
  "downloads_of ds = (case downloadCount ds of None \<Rightarrow> 0 | Some v \<Rightarrow> v)"

definition tag_count :: "dataset \<Rightarrow> nat" where
  "tag_count ds = (case tags ds of None \<Rightarrow> 0 | Some ts \<Rightarrow> length ts)"

section \<open>Building records from the catalogue listing\<close>

text \<open>
  One object of the JSON array that the listing endpoint returns. Every attribute may
  be missing.
\<close>

record listing_item =
  li_id :: "string option"
  li_name :: "string option"
  li_description :: "string option"
  li_category :: "string option"
  li_tags :: "string list option"
  li_viewCount :: "int option"
  li_downloadCount :: "int option"
  li_createdAt :: "string option"
  li_rowsUpdatedAt :: "string option"
  li_displayType :: "string option"

text \<open>\<open>d.tags || []\<close> and \<open>d.viewCount || 0\<close>.\<close>

fun or_nil :: "string list option \<Rightarrow> string list" where
  "or_nil None = []"
| "or_nil (Some ts) = ts"

fun or_zero :: "int option \<Rightarrow> int" where
  "or_zero None = 0"
| "or_zero (Some v) = v"

text \<open>The \<open>map\<close> callback of \<open>TexasDataCrawler.discoverDatasetsViaAPI\<close>.\<close>

definition api_dataset :: "listing_item \<Rightarrow> dataset" where
  "api_dataset d =
     \<lparr> ds_id = li_id d,
       name = li_name d,
       description = Some (or_empty (li_description d)),
       category = Some (or_empty (li_category d)),
       tags = Some (or_nil (li_tags d)),
       viewCount = Some (or_zero (li_viewCount d)),
       downloadCount = Some (or_zero (li_downloadCount d)),
       createdAt = li_createdAt d,
       updatedAt = li_rowsUpdatedAt d,
       displayType = li_displayType d,
       url = ''https://data.texas.gov/dataset/'' @ tmpl (li_id d),
       source = None,
       sourceType = None,
       apiUrl = None \<rparr>"

text \<open>The \<open>map\<close> callback of \<open>TexasMultiSourceCrawler.crawlSocrata\<close>.\<close>

definition socrata_dataset :: "string \<Rightarrow> listing_item \<Rightarrow> dataset" where
  "socrata_dataset src d =
     \<lparr> ds_id = li_id d,
       name = li_name d,
       description = Some (or_empty (li_description d)),
       category = Some (or_empty (li_category d)),
       tags = Some (or_nil (li_tags d)),
       viewCount = Some (or_zero (li_viewCount d)),
       downloadCount = Some (or_zero (li_downloadCount d)),
       createdAt = None,
       updatedAt = None,
       displayType = li_displayType d,
       url = ''https://data.texas.gov/dataset/'' @ tmpl (li_id d),
       source = Some src,
       sourceType = Some ''socrata'',
       apiUrl = Some (''https://data.texas.gov/resource/'' @ tmpl (li_id d) @ ''.json'') \<rparr>"

text \<open>A listing object that has an id, a name and a description and nothing else.\<close>

definition item :: "string \<Rightarrow> string \<Rightarrow> string \<Rightarrow> listing_item" where
  "item i n d =
     \<lparr> li_id = Some i, li_name = Some n, li_description = Some d, li_category = None,
       li_tags = None, li_viewCount = None, li_downloadCount = None, li_createdAt = None,
       li_rowsUpdatedAt = None, li_displayType = None \<rparr>"

section \<open>Relevance filter and categories\<close>

text \<open>The \<open>legalKeywords\<close> array of \<open>TexasDataCrawler.filterLegalDatasets\<close>.\<close>

definition legalKeywords :: "string list" where
  "legalKeywords =
     [''legal'', ''law'', ''court'', ''attorney'', ''license'', ''permit'',
      ''regulation'', ''statute'', ''crime'', ''criminal'', ''justice'',
      ''violation'', ''penalty'', ''fine'', ''compliance'', ''regulatory'',
      ''insurance'', ''tdi'', ''txdps'', ''bar'', ''lawyer'', ''filing'',
      ''case'', ''judge'', ''prosecutor'', ''defense'', ''litigation'',
      ''tarrant'', ''harris'', ''dallas'', ''travis'', ''bexar'']"

text \<open>The \<open>legalKeywords\<close> array of \<open>TexasMultiSourceCrawler.filterLegalDatasets\<close>.\<close>

definition legalKeywords_m :: "string list" where
  "legalKeywords_m =
     [''legal'', ''law'', ''court'', ''attorney'', ''license'', ''permit'',
      ''regulation'', ''statute'', ''crime'', ''criminal'', ''justice'',
      ''violation'', ''penalty'', ''fine'', ''compliance'', ''regulatory'',
      ''insurance'', ''tdi'', ''txdps'', ''bar'', ''lawyer'', ''filing'',
      ''case'', ''judge'', ''prosecutor'', ''defense'', ''litigation'',
      ''tarrant'', ''harris'', ''dallas'', ''travis'', ''bexar'', ''bell'',
      ''child'', ''abuse'', ''neglect'', ''prison'', ''release'', ''inmate'',
      ''tdcj'', ''tdlr'', ''bill'', ''legislation'', ''session'']"

text \<open>
  \<open>`${ds.name} ${ds.description} ${ds.category} ${ds.tags?.join(' ')}`.toLowerCase()\<close>,
  the text the single-source filter searches.
\<close>

definition filter_text :: "dataset \<Rightarrow> string" where
  "filter_text ds =
     toLowerCase (tmpl (name ds) @ '' '' @ tmpl (description ds) @ '' '' @ tmpl (category ds)
                  @ '' '' @ tmpl (map_option (join '' '') (tags ds)))"

text \<open>\<open>legalKeywords.some(kw => text.includes(kw))\<close>.\<close>

definition is_legal :: "dataset \<Rightarrow> bool" where
  "is_legal ds = list_ex (\<lambda>kw. str_includes (filter_text ds) kw) legalKeywords"

text \<open>
  \<open>`${ds.name} ${ds.description || ''}`.toLowerCase()\<close>, the text the multi-source
  crawler searches, in its filter and in its categorisation alike.
\<close>

definition text_m :: "dataset \<Rightarrow> string" where
  "text_m ds = toLowerCase (tmpl (name ds) @ '' '' @ or_empty (description ds))"

definition is_legal_m :: "dataset \<Rightarrow> bool" where
  "is_legal_m ds = list_ex (\<lambda>kw. str_includes (text_m ds) kw) legalKeywords_m"

text \<open>
  \<open>`${ds.name} ${ds.description}`.toLowerCase()\<close>, the text the single-source crawler
  categorises.
\<close>

definition categorize_text :: "dataset \<Rightarrow> string" where
  "categorize_text ds = toLowerCase (tmpl (name ds) @ '' '' @ tmpl (description ds))"

text \<open>The object \<open>this.categorized\<close>: three arrays, filled by \<open>push\<close>.\<close>

record categorized =
  LAW_VERIFICATION :: "dataset list"
  NEWS :: "dataset list"
  ATTORNEY_RESOURCE :: "dataset list"

definition empty_categorized :: categorized where
  "empty_categorized = \<lparr> LAW_VERIFICATION = [], NEWS = [], ATTORNEY_RESOURCE = [] \<rparr>"

text \<open>The callback of \<open>this.legalDatasets.forEach\<close> in \<open>TexasDataCrawler\<close>.\<close>

definition categorize_step :: "categorized \<Rightarrow> dataset \<Rightarrow> categorized" where
  "categorize_step c ds =
     (let text = categorize_text ds
      in if str_includes text ''court'' \<or> str_includes text ''case'' \<or> str_includes text ''filing''
            \<or> str_includes text ''criminal'' \<or> str_includes text ''prosecution''
            \<or> str_includes text ''dps'' \<or> str_includes text ''crime''
            \<or> str_includes text ''violation'' \<or> str_includes text ''penalty''
         then c\<lparr>LAW_VERIFICATION := LAW_VERIFICATION c @ [ds]\<rparr>
         else if str_includes text ''news'' \<or> str_includes text ''report''
            \<or> str_includes text ''press'' \<or> str_includes text ''publication''
            \<or> str_includes text ''announcement''
         then c\<lparr>NEWS := NEWS c @ [ds]\<rparr>
         else if str_includes text ''attorney'' \<or> str_includes text ''lawyer''
            \<or> str_includes text ''license'' \<or> str_includes text ''bar''
            \<or> str_includes text ''permit'' \<or> str_includes text ''compliance''
         then c\<lparr>ATTORNEY_RESOURCE := ATTORNEY_RESOURCE c @ [ds]\<rparr>
         else c\<lparr>LAW_VERIFICATION := LAW_VERIFICATION c @ [ds]\<rparr>)"

text \<open>
  \<open>TexasDataCrawler.filterLegalDatasets\<close>, from \<open>this.datasets\<close> to the new
  \<open>this.legalDatasets\<close> and \<open>this.categorized\<close>.
\<close>

definition filterLegalDatasets :: "dataset list \<Rightarrow> dataset list \<times> categorized" where
  "filterLegalDatasets dss =
     (let legalDatasets = filter is_legal dss
      in (legalDatasets, foldl categorize_step empty_categorized legalDatasets))"

text \<open>The callback of \<open>this.legalDatasets.forEach\<close> in \<open>TexasMultiSourceCrawler\<close>.\<close>

definition categorize_step_m :: "categorized \<Rightarrow> dataset \<Rightarrow> categorized" where
  "categorize_step_m c ds =
     (let text = text_m ds
      in if str_includes text ''court'' \<or> str_includes text ''case'' \<or> str_includes text ''filing''
            \<or> str_includes text ''criminal'' \<or> str_includes text ''prosecution''
            \<or> str_includes text ''dps'' \<or> str_includes text ''crime''
            \<or> str_includes text ''violation'' \<or> str_includes text ''penalty''
            \<or> str_includes text ''prison'' \<or> str_includes text ''inmate''
            \<or> str_includes text ''release'' \<or> str_includes text ''statute''
            \<or> str_includes text ''penal code''
         then c\<lparr>LAW_VERIFICATION := LAW_VERIFICATION c @ [ds]\<rparr>
         else if str_includes text ''news'' \<or> str_includes text ''report''
            \<or> str_includes text ''press'' \<or> str_includes text ''publication''
            \<or> str_includes text ''announcement''
         then c\<lparr>NEWS := NEWS c @ [ds]\<rparr>
         else if str_includes text ''attorney'' \<or> str_includes text ''lawyer''
            \<or> str_includes text ''license'' \<or> str_includes text ''bar''
            \<or> str_includes text ''permit'' \<or> str_includes text ''compliance''
         then c\<lparr>ATTORNEY_RESOURCE := ATTORNEY_RESOURCE c @ [ds]\<rparr>
         else c\<lparr>LAW_VERIFICATION := LAW_VERIFICATION c @ [ds]\<rparr>)"

text \<open>
  \<open>TexasMultiSourceCrawler.filterLegalDatasets\<close>. \<open>this.datasets\<close> is an object keyed by
  source; \<open>Object.keys\<close> lists the keys in insertion order, so it is an association
  list here, and \<open>allDatasets\<close> is the concatenation of its values.
\<close>

definition filterLegalDatasets_m :: "(string \<times> dataset list) list \<Rightarrow> dataset list \<times> categorized" where
  "filterLegalDatasets_m datasets_by_source =
     (let allDatasets = foldl (\<lambda>acc (src, dss). acc @ dss) [] datasets_by_source;
          legalDatasets = filter is_legal_m allDatasets
      in (legalDatasets, foldl categorize_step_m empty_categorized legalDatasets))"

text \<open>
  The classification as the specification words it: three categories, tried in the
  order LAW_VERIFICATION, NEWS, ATTORNEY_RESOURCE on a lowercased text, the first
  category with a term in the text winning, LAW_VERIFICATION when none has one.
\<close>

datatype category_tag = Law_Verification | News | Attorney_Resource

definition news_terms :: "string list" where
  "news_terms = [''news'', ''report'', ''press'', ''publication'', ''announcement'']"

definition attorney_terms :: "string list" where
  "attorney_terms = [''attorney'', ''lawyer'', ''license'', ''bar'', ''permit'', ''compliance'']"

definition law_terms_m :: "string list" where
  "law_terms_m =
     [''court'', ''case'', ''filing'', ''criminal'', ''prosecution'', ''dps'', ''crime'',
      ''violation'', ''penalty'', ''prison'', ''inmate'', ''release'', ''statute'', ''penal code'']"

text \<open>The single-source crawler tries the first nine of the priority-1 terms only.\<close>

definition law_terms :: "string list" where
  "law_terms =
     [''court'', ''case'', ''filing'', ''criminal'', ''prosecution'', ''dps'', ''crime'',
      ''violation'', ''penalty'']"

definition first_match :: "string list \<Rightarrow> string \<Rightarrow> category_tag" where
  "first_match priority1 text =
     (if \<exists>kw \<in> set priority1. sublist kw text then Law_Verification
      else if \<exists>kw \<in> set news_terms. sublist kw text then News
      else if \<exists>kw \<in> set attorney_terms. sublist kw text then Attorney_Resource
      else Law_Verification)"

text \<open>
  The relevance test as the specification words it: the lowercased concatenation of
  name, description, category and joined tags (an absent attribute as the empty text)
  contains a keyword of the list.
\<close>

definition spec_relevance_text :: "dataset \<Rightarrow> string" where
  "spec_relevance_text ds =
     toLowerCase (or_empty (name ds) @ '' '' @ or_empty (description ds) @ '' ''
                  @ or_empty (category ds) @ '' '' @ join '' '' (or_nil (tags ds)))"

definition spec_relevant :: "string list \<Rightarrow> dataset \<Rightarrow> bool" where
  "spec_relevant keywords ds = (\<exists>kw \<in> set keywords. sublist kw (spec_relevance_text ds))"

text \<open>
  A listing of four items, and one item that names a legal term in its category and
  tags only.
\<close>

definition scenario :: "listing_item list" where
  "scenario =
     [item ''aaaa-0001'' ''Court case filing'' [],
      item ''aaaa-0002'' ''Attorney license bar'' [],
      item ''aaaa-0003'' ''Weather forecast'' [],
      item ''aaaa-0004'' ''Evening News'' ''Reports from the county COURT'']"

definition parks :: listing_item where
  "parks = (item ''abcd-1234'' ''Parks'' ''Trails and camp sites'')
             \<lparr> li_category := Some ''Law'', li_tags := Some [''court'', ''records''] \<rparr>"

section \<open>The remote-control client\<close>

text \<open>
  What \<open>JSON.parse\<close> returns. Numbers are integers here: a correlation id is one, and a
  fractional number in a message's \<open>id\<close> is truthy and matches no pending command, like
  an integer that was never assigned. A parsed object lists each key once.
\<close>

datatype json =
    JNull
  | JBool bool
  | JNum int
  | JStr string
  | JArr "json list"
  | JObj "(string \<times> json) list"

datatype js_error = SyntaxError | TypeError | NetworkError

text \<open>Truthiness, as \<open>&&\<close> and \<open>||\<close> read a value.\<close>

fun truthy :: "json \<Rightarrow> bool" where
  "truthy JNull = False"
| "truthy (JBool b) = b"
| "truthy (JNum n) = (n \<noteq> 0)"
| "truthy (JStr s) = (s \<noteq> [])"
| "truthy (JArr xs) = True"
| "truthy (JObj kvs) = True"

text \<open>
  \<open>v.k\<close> for the keys the client reads (\<open>id\<close>, \<open>result\<close>, \<open>value\<close>) on a value other
  than \<open>null\<close>: the property of an object, \<open>undefined\<close> (\<open>None\<close>) on anything else.
\<close>

fun get_prop :: "json \<Rightarrow> string \<Rightarrow> json option" where
  "get_prop (JObj kvs) k = map_of kvs k"
| "get_prop v k = None"

definition truthy_prop :: "json option \<Rightarrow> bool" where
  "truthy_prop v = (case v of None \<Rightarrow> False | Some x \<Rightarrow> truthy x)"

text \<open>
  The data of an incoming message, as \<open>JSON.parse(event.data)\<close> finds it: text that is
  not JSON, on which it throws, or the value it returns.
\<close>

datatype frame = Unparseable | Parsed json

text \<open>
  A connected client. \<open>next_id\<close> is the field \<open>this.id\<close> and \<open>pending\<close> the map from
  ids to resolvers. A resolver is the index of its promise in \<open>promises\<close>, the promises
  that \<open>send\<close> has created (\<open>None\<close> while unsettled); \<open>sent\<close> holds the envelopes given
  to \<open>ws.send\<close>, before \<open>JSON.stringify\<close>.
\<close>

record CDPBrowser =
  wsUrl :: string
  next_id :: int
  pending :: "int \<rightharpoonup> nat"
  promises :: "json option list"
  sent :: "json list"

text \<open>The constructor, followed by a \<open>connect\<close> that has opened the socket.\<close>

definition new_CDPBrowser :: "string \<Rightarrow> CDPBrowser" where
  "new_CDPBrowser u = \<lparr> wsUrl = u, next_id = 1, pending = Map.empty, promises = [], sent = [] \<rparr>"

definition envelope :: "int \<Rightarrow> string \<Rightarrow> json \<Rightarrow> json" where
  "envelope mid method params = JObj [(''id'', JNum mid), (''method'', JStr method), (''params'', params)]"

text \<open>
  \<open>send(method, params)\<close>: \<open>mid = this.id++\<close>, the envelope goes out, a new promise is
  made and its resolver stored under \<open>mid\<close>. The promise is returned.
\<close>

definition send :: "CDPBrowser \<Rightarrow> string \<Rightarrow> json \<Rightarrow> CDPBrowser \<times> nat" where
  "send b method params =
     (let mid = next_id b;
          b = b\<lparr>next_id := next_id b + 1\<rparr>;
          b = b\<lparr>sent := sent b @ [envelope mid method params]\<rparr>;
          p = length (promises b);
          b = b\<lparr>promises := promises b @ [None]\<rparr>;
          b = b\<lparr>pending := (pending b)(mid \<mapsto> p)\<rparr>
      in (b, p))"

text \<open>Calling a resolver: it settles its promise unless the promise is settled already.\<close>

definition resolve :: "json option list \<Rightarrow> nat \<Rightarrow> json \<Rightarrow> json option list" where
  "resolve ps p v = (if p < length ps \<and> ps ! p = None then ps[p := Some v] else ps)"

text \<open>\<open>msg.result || msg\<close>.\<close>

definition result_or_msg :: "json \<Rightarrow> json" where
  "result_or_msg msg =
     (case get_prop msg ''result'' of
        None \<Rightarrow> msg
      | Some r \<Rightarrow> if truthy r then r else msg)"

text \<open>
  \<open>this.pending.get(msg.id)\<close> and \<open>this.pending.delete(msg.id)\<close>: the keys of the map
  are numbers, so a value of another type is not among them.
\<close>

fun pending_get :: "(int \<rightharpoonup> nat) \<Rightarrow> json option \<Rightarrow> nat option" where
  "pending_get m (Some (JNum i)) = m i"
| "pending_get m v = None"

fun pending_delete :: "(int \<rightharpoonup> nat) \<Rightarrow> json option \<Rightarrow> (int \<rightharpoonup> nat)" where
  "pending_delete m (Some (JNum i)) = m(i := None)"
| "pending_delete m v = m"

text \<open>
  The \<open>onmessage\<close> handler. \<open>JSON.parse\<close> throws a SyntaxError on text that is not
  JSON, and \<open>msg.id\<close> a TypeError when the text is \<open>null\<close>; nothing in the handler
  catches either.
\<close>

definition onmessage :: "CDPBrowser \<Rightarrow> frame \<Rightarrow> js_error + CDPBrowser" where
  "onmessage b fr =
     (case fr of
        Unparseable \<Rightarrow> Inl SyntaxError
      | Parsed msg \<Rightarrow>
          if msg = JNull then Inl TypeError
          else if truthy_prop (get_prop msg ''id'') \<and> pending_get (pending b) (get_prop msg ''id'') \<noteq> None
          then (case pending_get (pending b) (get_prop msg ''id'') of
                  None \<Rightarrow> Inr b
                | Some p \<Rightarrow>
                    Inr (b\<lparr> promises := resolve (promises b) p (result_or_msg msg),
                            pending := pending_delete (pending b) (get_prop msg ''id'') \<rparr>))
          else Inr b)"

text \<open>
  What happens to a client: a command is sent or a message comes in. An exception that
  leaves the handler is caught by nobody, and the trace ends with it.
\<close>

datatype event = Send string json | Receive frame

fun replay :: "CDPBrowser \<Rightarrow> event list \<Rightarrow> js_error + CDPBrowser" where
  "replay b [] = Inr b"
| "replay b (Send method params # es) = replay (fst (send b method params)) es"
| "replay b (Receive fr # es) =
     (case onmessage b fr of Inl e \<Rightarrow> Inl e | Inr b' \<Rightarrow> replay b' es)"

fun is_send :: "event \<Rightarrow> bool" where
  "is_send (Send m p) = True"
| "is_send (Receive fr) = False"

definition count_sends :: "event list \<Rightarrow> nat" where
  "count_sends es = length (filter is_send es)"

text \<open>The messages of a trace, in order of arrival.\<close>

fun received :: "event list \<Rightarrow> json list" where
  "received [] = []"
| "received (Receive (Parsed msg) # es) = msg # received es"
| "received (e # es) = received es"

text \<open>An event whose handling raises nothing: any send, and any message that parses to a value other than \<open>null\<close>.\<close>

fun deliverable :: "event \<Rightarrow> bool" where
  "deliverable (Send m p) = True"
| "deliverable (Receive Unparseable) = False"
| "deliverable (Receive (Parsed msg)) = (msg \<noteq> JNull)"

definition has_id :: "int \<Rightarrow> json \<Rightarrow> bool" where
  "has_id mid msg = (get_prop msg ''id'' = Some (JNum mid))"

fun envelope_id :: "json \<Rightarrow> int option" where
  "envelope_id (JObj kvs) = (case map_of kvs ''id'' of Some (JNum i) \<Rightarrow> Some i | _ \<Rightarrow> None)"
| "envelope_id v = None"

text \<open>
  What holds of the table of pending commands at every moment: its ids are positive
  and below the next id, each resolver belongs to an unsettled promise, and no two ids
  share a resolver.
\<close>

definition pending_inv :: "CDPBrowser \<Rightarrow> bool" where
  "pending_inv b \<longleftrightarrow>
     0 < next_id b \<and>
     (\<forall>i h. pending b i = Some h \<longrightarrow>
        0 < i \<and> i < next_id b \<and> h < length (promises b) \<and> promises b ! h = None)
     \<and> (\<forall>i j h. pending b i = Some h \<and> pending b j = Some h \<longrightarrow> i = j)"

text \<open>
  \<open>evaluate(expression)\<close>: the command it sends, and what it returns once the promise
  has resolved with \<open>result\<close>, namely \<open>result.result?.value\<close> (\<open>None\<close> is \<open>undefined\<close>).
\<close>

definition evaluate :: "CDPBrowser \<Rightarrow> string \<Rightarrow> CDPBrowser \<times> nat" where
  "evaluate b expression = send b ''Runtime.evaluate'' (JObj [(''expression'', JStr expression)])"

definition evaluate_return :: "json \<Rightarrow> js_error + json option" where
  "evaluate_return result =
     (if result = JNull then Inl TypeError
      else case get_prop result ''result'' of
             None \<Rightarrow> Inr None
           | Some r \<Rightarrow> if r = JNull then Inr None else Inr (get_prop r ''value''))"

text \<open>The field at a path of keys, when every step of the path is there.\<close>

fun lookup_path :: "json \<Rightarrow> string list \<Rightarrow> json option" where
  "lookup_path v [] = Some v"
| "lookup_path (JObj kvs) (k # ks) =
     (case map_of kvs k of None \<Rightarrow> None | Some w \<Rightarrow> lookup_path w ks)"
| "lookup_path v (k # ks) = None"

text \<open>
  The return value as the specification words it: the \<open>.result.value\<close> field of the
  payload, and the text "no value" when the field is absent.
\<close>

definition spec_evaluate_return :: "json \<Rightarrow> json" where
  "spec_evaluate_return payload =
     (case lookup_path payload [''result'', ''value''] of
        Some v \<Rightarrow> v
      | None \<Rightarrow> JStr ''no value'')"

text \<open>Example traffic: a trace with replies out of order, an error reply and a reply that carries a value.\<close>

definition trace0 :: "event list" where
  "trace0 =
     [Send ''Runtime.enable'' (JObj []),
      Receive (Parsed (JObj [(''method'', JStr ''Runtime.executionContextCreated'')])),
      Send ''Page.enable'' (JObj []),
      Receive (Parsed (JObj [(''id'', JNum 7), (''result'', JStr ''stray'')])),
      Receive (Parsed (JObj [(''id'', JNum 2), (''result'', JObj [(''frameId'', JStr ''F'')])])),
      Receive (Parsed (JObj [(''id'', JNum 1), (''error'', JObj [(''code'', JNum (-32000))])])),
      Receive (Parsed (JObj [(''id'', JNum 2), (''result'', JStr ''late'')]))]"

definition error_reply :: json where
  "error_reply =
     JObj [(''id'', JNum 1),
           (''error'', JObj [(''code'', JNum (-32000)), (''message'', JStr ''Execution context was destroyed.'')])]"

definition value_reply :: json where
  "value_reply =
     JObj [(''id'', JNum 1),
           (''result'', JObj [(''result'', JObj [(''type'', JStr ''string''), (''value'', JStr ''[]'')])])]"

section \<open>Reachability probe\<close>

text \<open>
  What the request of \<open>https.get\<close> emits: a response with its status code, or an
  error. A promise is pending, fulfilled with a value or rejected; the first call of its
  resolver settles it and later calls do nothing.
\<close>

datatype http_event = Response int | RequestError

datatype 'a promise = Pending | Fulfilled 'a | Rejected js_error

definition settle :: "'a promise \<Rightarrow> 'a \<Rightarrow> 'a promise" where
  "settle p v = (case p of Pending \<Rightarrow> Fulfilled v | Fulfilled w \<Rightarrow> Fulfilled w | Rejected e \<Rightarrow> Rejected e)"

text \<open>
  The two callbacks of \<open>checkReachability\<close>: \<open>resolve(res.statusCode === 200)\<close> on the
  response and \<open>resolve(false)\<close> on an error.
\<close>

fun on_request_event :: "bool promise \<Rightarrow> http_event \<Rightarrow> bool promise" where
  "on_request_event p (Response statusCode) = settle p (statusCode = 200)"
| "on_request_event p RequestError = settle p False"

text \<open>
  What \<open>https.get(url, callback)\<close> does with an address: it throws before any request
  exists (an address that is no URL, or one whose protocol is not https), or it returns
  a request, which then emits its events.
\<close>

datatype get_result = Throws js_error | Emits "http_event list"

text \<open>
  What a call of \<open>checkReachability\<close> comes to: its promise, and the addresses it gave
  to \<open>https.get\<close>, in order.
\<close>

record probe =
  outcome :: "bool promise"
  requested :: "string list"

text \<open>
  \<open>checkReachability(url)\<close>, over the \<open>https.get\<close> it calls. The call stands in the
  executor of the promise, unguarded: an exception thrown there rejects the promise.
  Otherwise the two callbacks are run on what the request emits.
\<close>

definition checkReachability :: "(string \<Rightarrow> get_result) \<Rightarrow> string \<Rightarrow> probe" where
  "checkReachability https_get u =
     \<lparr> outcome = (case https_get u of
                      Throws e \<Rightarrow> Rejected e
                    | Emits evs \<Rightarrow> foldl on_request_event Pending evs),
       requested = [u] \<rparr>"

text \<open>
  An \<open>https.get\<close> that treats an address that does not begin with \<open>https://\<close> as Node's
  does, with a TypeError thrown at once, and answers every other address with status 200.
\<close>

definition https_only :: "string \<Rightarrow> get_result" where
  "https_only u = (if prefix ''https://'' u then Emits [Response 200] else Throws TypeError)"

section \<open>Numbers and the reachability rate\<close>

text \<open>
  A JavaScript number is a double. The finite ones that arise here are not negative;
  they are kept as the rational they denote, and each arithmetic operation rounds its
  exact result to the nearest double, ties to the even mantissa. The operands are
  small counts, far inside the normal range, so overflow and subnormal numbers are
  left out.
\<close>

definition pow2 :: "int \<Rightarrow> rat" where
  "pow2 e = (if 0 \<le> e then 2 ^ nat e else 1 / 2 ^ nat (- e))"

definition round_half_even :: "rat \<Rightarrow> int" where
  "round_half_even x =
     (let f = \<lfloor>x\<rfloor>; d = x - of_int f
      in if d < 1 / 2 then f else if 1 / 2 < d then f + 1 else if even f then f else f + 1)"

text \<open>The number of binary digits of a positive integer.\<close>

function bit_length :: "int \<Rightarrow> int" where
  "bit_length n = (if n \<le> 0 then 0 else 1 + bit_length (n div 2))"
  by pat_completeness auto
termination
  by (relation "measure nat") auto

declare bit_length.simps [simp del]

text \<open>The \<open>e\<close> with \<open>2^e \<le> x < 2^(e+1)\<close>, for a positive \<open>x\<close>.\<close>

definition binary_exponent :: "rat \<Rightarrow> int" where
  "binary_exponent x =
     (let (p, q) = quotient_of x;
          k = bit_length p - bit_length q
      in if pow2 k \<le> x then k else k - 1)"

text \<open>The double nearest to \<open>x\<close>: 53 significant binary digits.\<close>

definition to_double :: "rat \<Rightarrow> rat" where
  "to_double x =
     (if x \<le> 0 then 0
      else let s = 52 - binary_exponent x
           in of_int (round_half_even (x * pow2 s)) / pow2 s)"

datatype number = Num rat | NaN | Infinity

text \<open>\<open>a / b\<close> and \<open>x * n\<close> on counts: \<open>0 / 0\<close> is NaN and \<open>a / 0\<close> is Infinity.\<close>

definition js_divide :: "nat \<Rightarrow> nat \<Rightarrow> number" where
  "js_divide a b =
     (if b = 0 then (if a = 0 then NaN else Infinity)
      else Num (to_double (of_nat a / of_nat b)))"

fun js_times :: "number \<Rightarrow> nat \<Rightarrow> number" where
  "js_times (Num x) n = Num (to_double (x * of_nat n))"
| "js_times NaN n = NaN"
| "js_times Infinity n = (if n = 0 then NaN else Infinity)"

definition digit_char :: "nat \<Rightarrow> char" where
  "digit_char d = ''0123456789'' ! (d mod 10)"

function string_of_nat :: "nat \<Rightarrow> string" where
  "string_of_nat n = (if n < 10 then [digit_char n] else string_of_nat (n div 10) @ [digit_char (n mod 10)])"
  by pat_completeness auto
termination
  by (relation "measure id") auto

declare string_of_nat.simps [simp del]

text \<open>
  \<open>x.toFixed(1)\<close>: "NaN" for NaN; otherwise the integer \<open>n\<close> with \<open>n / 10\<close> nearest to
  \<open>x\<close>, the larger of two, written with one digit after the point.
\<close>

fun toFixed1 :: "number \<Rightarrow> string" where
  "toFixed1 NaN = ''NaN''"
| "toFixed1 Infinity = ''Infinity''"
| "toFixed1 (Num x) =
     (let n = nat \<lfloor>x * 10 + 1 / 2\<rfloor>
      in string_of_nat (n div 10) @ ''.'' @ string_of_nat (n mod 10))"

text \<open>\<open>(reachable / total * 100).toFixed(1)\<close>, the rate of \<open>TexasDataCrawler\<close>.\<close>

definition rate_of :: "nat \<Rightarrow> nat \<Rightarrow> string" where
  "rate_of reachable tot = toFixed1 (js_times (js_divide reachable tot) 100)"

text \<open>
  \<open>total > 0 ? (reachable / total * 100).toFixed(1) : 0\<close>, the rate of
  \<open>TexasMultiSourceCrawler\<close>: a text, or the number 0.
\<close>

datatype rate_value = Rate_Text string | Rate_Number int

definition rate_of_m :: "nat \<Rightarrow> nat \<Rightarrow> rate_value" where
  "rate_of_m reachable tot = (if tot > 0 then Rate_Text (rate_of reachable tot) else Rate_Number 0)"

text \<open>
  The rate as the specification words it: \<open>reachedCount / totalCount * 100\<close> rounded to
  one decimal (halves upwards), and 0 when \<open>totalCount\<close> is 0.
\<close>

definition spec_rate :: "nat \<Rightarrow> nat \<Rightarrow> rat" where
  "spec_rate reached tot =
     (if tot = 0 then 0 else of_int \<lfloor>(of_nat reached :: rat) / of_nat tot * 100 * 10 + 1 / 2\<rfloor> / 10)"

section \<open>The network and the browser, as the crawlers see them\<close>

text \<open>
  The body that \<open>fetchJSON\<close> resolves with is the array of listing objects or some
  other JSON value; \<open>fetchJSON\<close> rejects with the request's error or with the
  SyntaxError of \<open>JSON.parse\<close>.
\<close>

datatype body = Listing "listing_item list" | Not_An_Array

text \<open>
  Everything outside the process: what \<open>fetchJSON\<close> settles with for a URL, what the
  request of \<open>checkReachability\<close> ends with for the base URL of a source (the crawlers
  probe the base URLs of their table only, https URLs that \<open>https.get\<close> accepts, and
  every request is taken to end with a response or an error), the tabs that the debugging endpoint lists (their \<open>url\<close> and \<open>id\<close>; its
  body is taken to be JSON) or the error of that request, and what navigating the tab
  to a page and evaluating a script there gives once parsed: the links (\<open>text\<close>,
  \<open>href\<close>) of a source's page and the metadata of a dataset's page, or the exception
  raised on the way.
\<close>

record world =
  fetchJSON :: "string \<Rightarrow> js_error + body"
  request :: "string \<Rightarrow> http_event"
  tabs :: "js_error + (string \<times> string) list"
  page_links :: "string \<Rightarrow> js_error + (string \<times> string) list"
  page_metadata :: "string \<Rightarrow> js_error + string"

text \<open>\<open>await this.checkReachability(url)\<close> in such a world.\<close>

definition reachable_now :: "world \<Rightarrow> string \<Rightarrow> bool" where
  "reachable_now w u =
     (outcome (checkReachability (\<lambda>a. Emits [request w a]) u) = Fulfilled True)"

section \<open>The single-source crawler\<close>

record crawler =
  datasets :: "dataset list"
  metadata :: "dataset list"
  legalDatasets :: "dataset list"
  categorized :: categorized
  browser :: bool
  tabId :: "string option"

definition new_crawler :: crawler where
  "new_crawler =
     \<lparr> datasets = [], metadata = [], legalDatasets = [], categorized = empty_categorized,
       browser = False, tabId = None \<rparr>"

text \<open>
  \<open>discoverDatasetsViaAPI(limit)\<close>. Nothing here catches the rejection of \<open>fetchJSON\<close>,
  nor the TypeError of \<open>data.map\<close> on a body that is not an array.
\<close>

definition discoverDatasetsViaAPI :: "crawler \<Rightarrow> world \<Rightarrow> nat \<Rightarrow> js_error + crawler" where
  "discoverDatasetsViaAPI c w limit =
     (let u = ''https://data.texas.gov/api/views.json?limit='' @ string_of_nat limit
      in case fetchJSON w u of
           Inl e \<Rightarrow> Inl e
         | Inr Not_An_Array \<Rightarrow> Inl TypeError
         | Inr (Listing items) \<Rightarrow> Inr (c\<lparr>datasets := map api_dataset items\<rparr>))"

text \<open>
  \<open>initBrowser()\<close>: a failure to list the tabs is caught; \<open>this.browser\<close> is set as soon
  as a tab of the portal is found, before \<open>connect\<close> is awaited. The returned flag is
  not used by \<open>run\<close>.
\<close>

definition initBrowser :: "crawler \<Rightarrow> world \<Rightarrow> crawler" where
  "initBrowser c w =
     (case tabs w of
        Inl e \<Rightarrow> c
      | Inr ts \<Rightarrow>
          (case find (\<lambda>(tab_url, tab_id). str_includes tab_url ''data.texas.gov'') ts of
             None \<Rightarrow> c
           | Some (tab_url, tab_id) \<Rightarrow> c\<lparr>tabId := Some tab_id, browser := True\<rparr>))"

text \<open>
  \<open>extractDeepMetadata(datasetIds)\<close>: the first ten ids, one page each; an item whose
  page fails is skipped. The result is the list of ids whose metadata was extracted.
\<close>

definition extractDeepMetadata :: "crawler \<Rightarrow> world \<Rightarrow> string option list \<Rightarrow> string option list" where
  "extractDeepMetadata c w datasetIds =
     (if \<not> browser c then []
      else filter (\<lambda>dsId. case page_metadata w (''https://data.texas.gov/dataset/'' @ tmpl dsId) of
                             Inl e \<Rightarrow> False | Inr meta \<Rightarrow> True)
             (take 10 datasetIds))"

record api_stats =
  reachable :: nat
  total_n :: nat
  rate :: string

text \<open>
  \<open>measureAPIReachability()\<close> of \<open>TexasDataCrawler\<close>: the first
  \<open>Math.min(20, this.datasets.length)\<close> datasets are probed in turn, a rejected
  \<open>fetchJSON\<close> being caught and counted as a failure.
\<close>

definition probe_ok :: "world \<Rightarrow> dataset \<Rightarrow> bool" where
  "probe_ok w ds =
     (case fetchJSON w (''https://data.texas.gov/resource/'' @ tmpl (ds_id ds) @ ''.json?$limit=1'') of
        Inl e \<Rightarrow> False | Inr b \<Rightarrow> True)"

definition measureAPIReachability :: "crawler \<Rightarrow> world \<Rightarrow> api_stats" where
  "measureAPIReachability c w =
     (let tot = min 20 (length (datasets c));
          reached = foldl (\<lambda>r ds. if probe_ok w ds then r + 1 else r) 0 (take tot (datasets c))
      in \<lparr> reachable = reached, total_n = tot, rate = rate_of reached tot \<rparr>)"

text \<open>
  What a run leaves behind: the crawler, the error that the top-level \<open>catch\<close> logged,
  if any, the statistics and scores computed, the files written in order, and whether
  \<open>finally\<close> closed a browser.
\<close>

record run_result =
  final :: crawler
  logged_error :: "js_error option"
  deep_count :: "nat option"
  stats :: "api_stats option"
  quality :: "score_entry list option"
  files :: "string list"
  browser_closed :: bool

text \<open>
  \<open>TexasDataCrawler.run(withBrowser)\<close>. The steps stand in one \<open>try\<close> block: an
  exception in a step skips every step after it. (Writing a file is taken to succeed.)
\<close>

definition run :: "world \<Rightarrow> bool \<Rightarrow> run_result" where
  "run w withBrowser =
     (case discoverDatasetsViaAPI new_crawler w 100 of
        Inl e \<Rightarrow>
          \<lparr> final = new_crawler, logged_error = Some e, deep_count = None, stats = None,
            quality = None, files = [], browser_closed = browser new_crawler \<rparr>
      | Inr c \<Rightarrow>
          (let c = c\<lparr>metadata := datasets c\<rparr>;
               c = (if withBrowser then initBrowser c w else c);
               (legal, cats) = filterLegalDatasets (datasets c);
               c = c\<lparr>legalDatasets := legal, categorized := cats\<rparr>;
               deepMeta = (if browser c
                           then Some (length (extractDeepMetadata c w (map ds_id (legalDatasets c))))
                           else None);
               apiStats = measureAPIReachability c w;
               scores = generateQualityScores (legalDatasets c)
           in \<lparr> final = c, logged_error = None, deep_count = deepMeta, stats = Some apiStats,
                quality = Some scores,
                files = [''/Users/owner/texas_datasets.json'', ''/Users/owner/texas_datasets.csv'',
                         ''/Users/owner/texas_legal_datasets_langgraph.json''],
                browser_closed = browser c \<rparr>))"

section \<open>The multi-source crawler\<close>

record source_config =
  src_type :: string
  api :: "string option"
  baseUrl :: string
  src_description :: string
  src_legalKeywords :: "string list"

text \<open>The table \<open>TEXAS_DATA_SOURCES\<close>, its keys in the order of the source.\<close>

definition TEXAS_DATA_SOURCES :: "(string \<times> source_config) list" where
  "TEXAS_DATA_SOURCES =
     [(''data.texas.gov'',
       \<lparr> src_type = ''socrata'', api = Some ''https://data.texas.gov/api/views.json'',
         baseUrl = ''https://data.texas.gov'',
         src_description = ''Texas Open Data Portal - Main Socrata source'',
         src_legalKeywords = [''tdcj'', ''tdi'', ''tdlr'', ''insurance'', ''license'', ''court'',
                              ''crime'', ''prison'', ''abuse'', ''neglect''] \<rparr>),
      (''capitol.texas.gov'',
       \<lparr> src_type = ''api'', api = None, baseUrl = ''https://capitol.texas.gov'',
         src_description = ''Texas Capitol / Legislature'',
         src_legalKeywords = [''legislature'', ''bill'', ''resolution'', ''session'', ''law''] \<rparr>),
      (''statutes.capitol.texas.gov'',
       \<lparr> src_type = ''api'', api = None, baseUrl = ''https://statutes.capitol.texas.gov'',
         src_description = ''Texas Statutes full text'',
         src_legalKeywords = [''penal code'', ''civil statute'', ''chapter'', ''section'', ''law'',
                              ''regulation''] \<rparr>),
      (''www.texasattorneygeneral.gov'',
       \<lparr> src_type = ''api'', api = None, baseUrl = ''https://www.texasattorneygeneral.gov'',
         src_description = ''Texas Attorney General'',
         src_legalKeywords = [''attorney general'', ''opinion'', ''legal'', ''consumer'', ''crime''] \<rparr>),
      (''txcourts.gov'',
       \<lparr> src_type = ''api'', api = Some ''https://search.txcourts.gov/api'',
         baseUrl = ''https://txcourts.gov'',
         src_description = ''Texas Judicial Branch'',
         src_legalKeywords = [''court'', ''case'', ''judicial'', ''docket'', ''trial''] \<rparr>),
      (''www.sos.state.tx.us'',
       \<lparr> src_type = ''api'', api = None, baseUrl = ''https://www.sos.state.tx.us'',
         src_description = ''Texas Secretary of State'',
         src_legalKeywords = [''notary'', ''corporation'', ''election'', ''filing''] \<rparr>),
      (''lrl.texas.gov'',
       \<lparr> src_type = ''api'', api = None, baseUrl = ''https://lrl.texas.gov'',
         src_description = ''Texas Legislative Reference Library'',
         src_legalKeywords = [''bill'', ''legislation'', ''member'', ''committee'', ''session''] \<rparr>),
      (''sll.texas.gov'',
       \<lparr> src_type = ''api'', api = None, baseUrl = ''https://sll.texas.gov'',
         src_description = ''Texas State Law Library'',
         src_legalKeywords = [''law'', ''legal'', ''statute'', ''code'', ''research''] \<rparr>),
      (''comptroller.texas.gov'',
       \<lparr> src_type = ''api'', api = None, baseUrl = ''https://comptroller.texas.gov'',
         src_description = ''Texas Comptroller'',
         src_legalKeywords = [''tax'', ''budget'', ''finance'', ''revenue''] \<rparr>),
      (''gov.texas.gov'',
       \<lparr> src_type = ''api'', api = None, baseUrl = ''https://gov.texas.gov'',
         src_description = ''Texas Governor'',
         src_legalKeywords = [''executive'', ''order'', ''proclamation'', ''appointment''] \<rparr>),
      (''www.legis.texas.gov'',
       \<lparr> src_type = ''api'', api = None, baseUrl = ''https://www.legis.texas.gov'',
         src_description = ''Texas Legislature Online'',
         src_legalKeywords = [''bill'', ''legislation'', ''hearing'', ''committee''] \<rparr>),
      (''www.lbb.texas.gov'',
       \<lparr> src_type = ''api'', api = None, baseUrl = ''https://www.lbb.texas.gov'',
         src_description = ''Texas Legislative Budget Board'',
         src_legalKeywords = [''budget'', ''appropriation'', ''fiscal''] \<rparr>),
      (''efiletexas.gov'',
       \<lparr> src_type = ''api'', api = None, baseUrl = ''https://www.efiletexas.gov'',
         src_description = ''Texas eFiling Portal'',
         src_legalKeywords = [''filing'', ''court'', ''document'', ''efile''] \<rparr>),
      (''www.bellcountytx.com'',
       \<lparr> src_type = ''api'', api = None, baseUrl = ''https://www.bellcountytx.com'',
         src_description = ''Bell County Official Site'',
         src_legalKeywords = [''court'', ''clerk'', ''district'', ''county'', ''legal''] \<rparr>)]"

text \<open>
  \<open>obj[key] = v\<close> on an object kept as the list of its entries in insertion order: an
  existing key keeps its place, a new one goes last.
\<close>

fun obj_set :: "(string \<times> 'v) list \<Rightarrow> string \<Rightarrow> 'v \<Rightarrow> (string \<times> 'v) list" where
  "obj_set [] k v = [(k, v)]"
| "obj_set ((k', v') # kvs) k v = (if k' = k then (k, v) # kvs else (k', v') # obj_set kvs k v)"

record crawler_m =
  datasets_m :: "(string \<times> dataset list) list"
  legalDatasets_m :: "dataset list"
  categorized_m :: categorized
  browser_m :: bool
  qualityScores_m :: "score_entry_m list"
  apiReachability_m :: "(string \<times> bool) list"

definition new_crawler_m :: crawler_m where
  "new_crawler_m =
     \<lparr> datasets_m = [], legalDatasets_m = [], categorized_m = empty_categorized,
       browser_m = False, qualityScores_m = [], apiReachability_m = [] \<rparr>"

definition initBrowser_m :: "crawler_m \<Rightarrow> world \<Rightarrow> crawler_m" where
  "initBrowser_m c w =
     (case tabs w of
        Inl e \<Rightarrow> c
      | Inr ts \<Rightarrow>
          (case find (\<lambda>(tab_url, tab_id). str_includes tab_url ''data.texas.gov'') ts of
             None \<Rightarrow> c
           | Some t \<Rightarrow> c\<lparr>browser_m := True\<rparr>))"

text \<open>\<open>`${v}`\<close> of a string or \<open>null\<close>.\<close>

fun tmpl_null :: "string option \<Rightarrow> string" where
  "tmpl_null None = ''null''"
| "tmpl_null (Some s) = s"

text \<open>
  \<open>crawlSocrata(source, limit)\<close>: the whole body is a \<open>try\<close> block whose \<open>catch\<close> records
  the source as unreachable and returns no records. An unknown source raises the
  TypeError of \<open>TEXAS_DATA_SOURCES[source].api\<close> inside it.
\<close>

definition crawlSocrata :: "crawler_m \<Rightarrow> world \<Rightarrow> string \<Rightarrow> nat \<Rightarrow> crawler_m \<times> dataset list" where
  "crawlSocrata c w src limit =
     (let attempt =
            (case map_of TEXAS_DATA_SOURCES src of
               None \<Rightarrow> Inl TypeError
             | Some config \<Rightarrow>
                 (case fetchJSON w (tmpl_null (api config) @ ''?limit='' @ string_of_nat limit) of
                    Inl e \<Rightarrow> Inl e
                  | Inr Not_An_Array \<Rightarrow> Inl TypeError
                  | Inr (Listing items) \<Rightarrow> Inr (map (socrata_dataset src) items)))
      in case attempt of
           Inr dss \<Rightarrow>
             (c\<lparr> datasets_m := obj_set (datasets_m c) src dss,
                 apiReachability_m := obj_set (apiReachability_m c) src True \<rparr>, dss)
         | Inl e \<Rightarrow> (c\<lparr> apiReachability_m := obj_set (apiReachability_m c) src False \<rparr>, []))"

text \<open>The record that \<open>crawlGeneric\<close> makes of a link.\<close>

definition scraped_dataset :: "string \<Rightarrow> source_config \<Rightarrow> string \<times> string \<Rightarrow> dataset" where
  "scraped_dataset src config l =
     \<lparr> ds_id = None, name = Some (fst l), description = Some (''Scraped from '' @ src_description config),
       category = None, tags = None, viewCount = None, downloadCount = None,
       createdAt = None, updatedAt = None, displayType = None,
       url = snd l, source = Some src, sourceType = Some ''scraper'', apiUrl = None \<rparr>"

text \<open>
  \<open>crawlGeneric(source)\<close>, for a key of the table and its entry: the base URL is probed
  first, and an unreachable source or a missing browser gives no records; an
  exception while the page is read is caught and gives no records either.
\<close>

definition crawlGeneric :: "crawler_m \<Rightarrow> world \<Rightarrow> string \<times> source_config \<Rightarrow> crawler_m \<times> dataset list" where
  "crawlGeneric c w entry =
     (let src = fst entry; config = snd entry;
          ok = reachable_now w (baseUrl config);
          c = c\<lparr>apiReachability_m := obj_set (apiReachability_m c) src ok\<rparr>
      in if \<not> ok then (c, [])
         else if \<not> browser_m c then (c, [])
         else case page_links w (baseUrl config) of
                Inl e \<Rightarrow> (c, [])
              | Inr parsed \<Rightarrow>
                  (let legalLinks =
                         filter (\<lambda>l. list_ex (\<lambda>kw. str_includes (toLowerCase (fst l)) kw)
                                        (src_legalKeywords config)) parsed;
                       dss = map (scraped_dataset src config) legalLinks
                   in (c\<lparr>datasets_m := obj_set (datasets_m c) src dss\<rparr>, dss)))"

text \<open>\<open>crawlAllSources()\<close>.\<close>

definition crawl_other :: "world \<Rightarrow> crawler_m \<Rightarrow> string \<times> source_config \<Rightarrow> crawler_m" where
  "crawl_other w c entry =
     (if fst entry \<noteq> ''data.texas.gov'' then fst (crawlGeneric c w entry) else c)"

definition crawlAllSources :: "crawler_m \<Rightarrow> world \<Rightarrow> crawler_m" where
  "crawlAllSources c w =
     (let c = fst (crawlSocrata c w ''data.texas.gov'' 100)
      in if browser_m c then foldl (crawl_other w) c TEXAS_DATA_SOURCES else c)"

record api_stats_m =
  reachable_m :: nat
  total_m :: nat
  rate_m :: rate_value

text \<open>
  \<open>measureAPIReachability()\<close> of \<open>TexasMultiSourceCrawler\<close>: at most ten datasets of the
  portal, then every other source of the table.
\<close>

text \<open>The bodies of its two loops, on the crawler and the counters \<open>reachable\<close> and \<open>total\<close>.\<close>

definition probe_dataset :: "world \<Rightarrow> nat \<times> nat \<Rightarrow> dataset \<Rightarrow> nat \<times> nat" where
  "probe_dataset w counters ds =
     (let r = fst counters; t = snd counters;
          t = t + 1
      in (if probe_ok w ds then r + 1 else r, t))"

definition probe_source ::
  "world \<Rightarrow> crawler_m \<times> nat \<times> nat \<Rightarrow> string \<times> source_config \<Rightarrow> crawler_m \<times> nat \<times> nat" where
  "probe_source w state entry =
     (let c = fst state; r = fst (snd state); t = snd (snd state)
      in if fst entry \<noteq> ''data.texas.gov''
         then (let t = t + 1;
                   now = reachable_now w (baseUrl (snd entry));
                   c = c\<lparr>apiReachability_m := obj_set (apiReachability_m c) (fst entry) now\<rparr>
               in (c, if now then r + 1 else r, t))
         else (c, r, t))"

definition measureAPIReachability_m :: "crawler_m \<Rightarrow> world \<Rightarrow> crawler_m \<times> api_stats_m" where
  "measureAPIReachability_m c w =
     (let sample = (case map_of (datasets_m c) ''data.texas.gov'' of
                      None \<Rightarrow> [] | Some dss \<Rightarrow> take 10 dss);
          counters = foldl (probe_dataset w) (0, 0) sample;
          state = foldl (probe_source w) (c, counters) TEXAS_DATA_SOURCES;
          c = fst state; reached = fst (snd state); tot = snd (snd state)
      in (c, \<lparr> reachable_m = reached, total_m = tot, rate_m = rate_of_m reached tot \<rparr>))"

record run_result_m =
  final_m :: crawler_m
  logged_error_m :: "js_error option"
  stats_m :: "api_stats_m option"
  files_m :: "string list"
  browser_closed_m :: bool

text \<open>
  \<open>TexasMultiSourceCrawler.run(withBrowser)\<close>. No step of it lets an exception
  through, the writing of the files being taken to succeed.
\<close>

definition run_m :: "world \<Rightarrow> bool \<Rightarrow> run_result_m" where
  "run_m w withBrowser =
     (let c = new_crawler_m;
          c = (if withBrowser then initBrowser_m c w else c);
          c = crawlAllSources c w;
          (legal, cats) = filterLegalDatasets_m (datasets_m c);
          c = c\<lparr>legalDatasets_m := legal, categorized_m := cats\<rparr>;
          (c, apiStats) = measureAPIReachability_m c w;
          c = c\<lparr>qualityScores_m := generateQualityScores_m (legalDatasets_m c)\<rparr>
      in \<lparr> final_m = c, logged_error_m = None, stats_m = Some apiStats,
           files_m = [''/Users/owner/texas_multi_source_data.json'',
                      ''/Users/owner/texas_all_sources_datasets.csv'',
                      ''/Users/owner/texas_legal_datasets.csv''],
           browser_closed_m = browser_m c \<rparr>)"

text \<open>
  Two worlds: one in which every request fails, and one in which the listing holds the
  four items of the scenario and the resource of the third is out of reach.
\<close>

definition offline :: world where
  "offline =
     \<lparr> fetchJSON = (\<lambda>u. Inl NetworkError), request = (\<lambda>u. RequestError),
       tabs = Inl NetworkError, page_links = (\<lambda>u. Inl NetworkError),
       page_metadata = (\<lambda>u. Inl NetworkError) \<rparr>"

definition online :: "listing_item list \<Rightarrow> world" where
  "online items =
     \<lparr> fetchJSON = (\<lambda>u. if prefix ''https://data.texas.gov/api/views.json'' u then Inr (Listing items)
                         else if u = ''https://data.texas.gov/resource/aaaa-0003.json?$limit=1''
                         then Inl NetworkError else Inr Not_An_Array),
       request = (\<lambda>u. if u = ''https://txcourts.gov'' then Response 200 else Response 503),
       tabs = Inl NetworkError, page_links = (\<lambda>u. Inl NetworkError),
       page_metadata = (\<lambda>u. Inl NetworkError) \<rparr>"

section \<open>Properties of the quality score\<close>

lemma desc_longer_iff: "desc_longer ds n \<longleftrightarrow> desc_len ds > n"
  by (cases "description ds") (auto simp: desc_longer_def desc_len_def)

lemma num_gt_views: "0 \<le> n \<Longrightarrow> num_gt (viewCount ds) n \<longleftrightarrow> views_of ds > n"
  by (cases "viewCount ds") (auto simp: num_gt_def views_of_def)

lemma num_gt_downloads: "0 \<le> n \<Longrightarrow> num_gt (downloadCount ds) n \<longleftrightarrow> downloads_of ds > n"
  by (cases "downloadCount ds") (auto simp: num_gt_def downloads_of_def)

lemma has_tags_iff: "has_tags ds \<longleftrightarrow> tag_count ds > 0"
  by (cases "tags ds") (auto simp: has_tags_def tag_count_def)

lemma raw_score_sum:
  "raw_score ds =
     50 + (if desc_longer ds 100 then 15 else 0) + (if desc_longer ds 300 then 10 else 0)
        + (if num_gt (viewCount ds) 100 then 10 else 0)
        + (if num_gt (downloadCount ds) 50 then 10 else 0)
        + (if has_tags ds then 5 else 0)"
  by (simp add: raw_score_def Let_def)

lemma raw_score_bounds: "50 \<le> raw_score ds \<and> raw_score ds \<le> 100"
  by (simp add: raw_score_sum)

lemma desc_longer_description_update:
  "desc_longer (ds\<lparr>description := Some d\<rparr>) n \<longleftrightarrow> length d > n"
  "desc_longer (ds\<lparr>description := None\<rparr>) n \<longleftrightarrow> False"
  by (auto simp: desc_longer_def)

text \<open>
  C3. The quality score of every record is the base 50 plus 15 for a description longer
  than 100, 10 more for one longer than 300, 10 for more than 100 views, 10 for more than
  50 downloads and 5 for at least one tag, capped at 100. Hence it lies between 0 and
  100, and a record with a description of 400 characters scores exactly 25 more than
  the same record without a description (missing or empty). Both crawlers' entries
  carry this score.
\<close>

theorem quality_score_formula:
  "qualityScore_of ds = spec_score (desc_len ds) (views_of ds) (downloads_of ds) (tag_count ds)
   \<and> 0 \<le> qualityScore_of ds \<and> qualityScore_of ds \<le> 100
   \<and> (length d = 400 \<longrightarrow>
        qualityScore_of (ds\<lparr>description := Some d\<rparr>) = qualityScore_of (ds\<lparr>description := None\<rparr>) + 25
      \<and> qualityScore_of (ds\<lparr>description := Some d\<rparr>) = qualityScore_of (ds\<lparr>description := Some []\<rparr>) + 25)
   \<and> map qualityScore (generateQualityScores legal) = map qualityScore_of legal
   \<and> map sm_qualityScore (generateQualityScores_m legal) = map qualityScore_of legal"
proof -
  have formula: "qualityScore_of ds =
      spec_score (desc_len ds) (views_of ds) (downloads_of ds) (tag_count ds)"
    by (simp add: qualityScore_of_def spec_score_def raw_score_sum desc_longer_iff
        num_gt_views num_gt_downloads has_tags_iff)
  have range: "0 \<le> qualityScore_of ds \<and> qualityScore_of ds \<le> 100"
    using raw_score_bounds [of ds] by (simp add: qualityScore_of_def)
  have long: "length d = 400 \<longrightarrow>
        qualityScore_of (ds\<lparr>description := Some d\<rparr>) = qualityScore_of (ds\<lparr>description := None\<rparr>) + 25
      \<and> qualityScore_of (ds\<lparr>description := Some d\<rparr>) = qualityScore_of (ds\<lparr>description := Some []\<rparr>) + 25"
    by (simp add: qualityScore_of_def raw_score_sum desc_longer_description_update
        has_tags_def)
  have single: "map qualityScore (generateQualityScores legal) = map qualityScore_of legal"
    by (simp add: generateQualityScores_def score_entry_of_def)
  have multi: "map sm_qualityScore (generateQualityScores_m legal) = map qualityScore_of legal"
    by (simp add: generateQualityScores_m_def score_entry_m_of_def)
  from formula range long single multi show ?thesis by blast
qed

theorem quality_score_formula_witness:
  "length (replicate 400 (CHR ''x'')) = 400
   \<and> qualityScore_of (\<lparr> ds_id = Some ''abcd-1234'', name = Some ''Court filings'',
          description = Some (replicate 400 (CHR ''x'')), category = Some [], tags = Some [],
          viewCount = Some 0, downloadCount = Some 0, createdAt = None, updatedAt = None,
          displayType = None, url = ''https://data.texas.gov/dataset/abcd-1234'',
          source = None, sourceType = None, apiUrl = None \<rparr>) = 75
   \<and> qualityScore_of (\<lparr> ds_id = Some ''abcd-1234'', name = Some ''Court filings'',
          description = None, category = Some [], tags = Some [],
          viewCount = Some 0, downloadCount = Some 0, createdAt = None, updatedAt = None,
          displayType = None, url = ''https://data.texas.gov/dataset/abcd-1234'',
          source = None, sourceType = None, apiUrl = None \<rparr>) = 50"
proof -
  let ?ds = "\<lparr> ds_id = Some ''abcd-1234'', name = Some ''Court filings'',
          description = None, category = Some [], tags = Some [],
          viewCount = Some 0, downloadCount = Some 0, createdAt = None, updatedAt = None,
          displayType = None, url = ''https://data.texas.gov/dataset/abcd-1234'',
          source = None, sourceType = None, apiUrl = None \<rparr>"
  let ?d = "replicate 400 (CHR ''x'')"
  have len: "length ?d = 400" by simp
  have base: "qualityScore_of ?ds = 50"
    using quality_score_formula [of ?ds ?d "[]"]
    by (simp add: spec_score_def desc_len_def views_of_def downloads_of_def tag_count_def)
  have step: "qualityScore_of (?ds\<lparr>description := Some ?d\<rparr>) = qualityScore_of (?ds\<lparr>description := None\<rparr>) + 25"
    using quality_score_formula [of ?ds ?d "[]"] len by blast
  from len base step show ?thesis by simp
qed

text \<open>
  C10. No record scores below 50: the base is 50 and every adjustment adds. The score
  therefore lies between 50 and 100, and it is 100 exactly when all five bonuses apply
  (a description longer than 300 is also longer than 100).
\<close>

theorem quality_score_at_least_base:
  "50 \<le> qualityScore_of ds \<and> qualityScore_of ds \<le> 100
   \<and> (qualityScore_of ds = 100 \<longleftrightarrow>
        desc_longer ds 100 \<and> desc_longer ds 300 \<and> num_gt (viewCount ds) 100
        \<and> num_gt (downloadCount ds) 50 \<and> has_tags ds)
   \<and> (qualityScore_of ds = 100 \<longleftrightarrow>
        desc_len ds > 300 \<and> views_of ds > 100 \<and> downloads_of ds > 50 \<and> tag_count ds > 0)"
proof -
  have bounds: "50 \<le> qualityScore_of ds \<and> qualityScore_of ds \<le> 100"
    using raw_score_bounds [of ds] by (simp add: qualityScore_of_def)
  have top: "qualityScore_of ds = 100 \<longleftrightarrow>
        desc_longer ds 100 \<and> desc_longer ds 300 \<and> num_gt (viewCount ds) 100
        \<and> num_gt (downloadCount ds) 50 \<and> has_tags ds"
    by (simp add: qualityScore_of_def raw_score_sum)
  have "desc_len ds > 300 \<Longrightarrow> desc_len ds > 100" by simp
  with top have top': "qualityScore_of ds = 100 \<longleftrightarrow>
        desc_len ds > 300 \<and> views_of ds > 100 \<and> downloads_of ds > 50 \<and> tag_count ds > 0"
    by (auto simp: desc_longer_iff num_gt_views num_gt_downloads has_tags_iff)
  from bounds top top' show ?thesis by blast
qed

theorem quality_score_at_least_base_witness:
  "qualityScore_of (\<lparr> ds_id = None, name = Some ''Bar'', description = Some (replicate 301 (CHR ''y'')),
          category = None, tags = Some [''law''], viewCount = Some 101, downloadCount = Some 51,
          createdAt = None, updatedAt = None, displayType = None, url = ''https://txcourts.gov/bar'',
          source = Some ''txcourts.gov'', sourceType = Some ''scraper'', apiUrl = None \<rparr>) = 100
   \<and> qualityScore_of (\<lparr> ds_id = None, name = Some ''Bar'', description = Some (replicate 301 (CHR ''y'')),
          category = None, tags = None, viewCount = Some 101, downloadCount = Some 51,
          createdAt = None, updatedAt = None, displayType = None, url = ''https://txcourts.gov/bar'',
          source = Some ''txcourts.gov'', sourceType = Some ''scraper'', apiUrl = None \<rparr>) \<noteq> 100"
proof -
  let ?a = "\<lparr> ds_id = None, name = Some ''Bar'', description = Some (replicate 301 (CHR ''y'')),
          category = None, tags = Some [''law''], viewCount = Some 101, downloadCount = Some 51,
          createdAt = None, updatedAt = None, displayType = None, url = ''https://txcourts.gov/bar'',
          source = Some ''txcourts.gov'', sourceType = Some ''scraper'', apiUrl = None \<rparr>"
  have a: "qualityScore_of ?a = 100"
    using quality_score_at_least_base [of ?a]
    by (simp add: desc_longer_def num_gt_def has_tags_def)
  have b: "qualityScore_of (?a\<lparr>tags := None\<rparr>) \<noteq> 100"
    using quality_score_at_least_base [of "?a\<lparr>tags := None\<rparr>"]
    by (simp add: has_tags_def)
  from a b show ?thesis by simp
qed

section \<open>Properties of the relevance filter and the categories\<close>

lemma str_includes_sublist: "str_includes t kw \<longleftrightarrow> sublist kw t"
proof (induction t)
  case Nil
  then show ?case by auto
next
  case (Cons c cs)
  show ?case
  proof (cases kw)
    case Nil
    then show ?thesis by simp
  next
    case (Cons k ks)
    then show ?thesis using Cons.IH by (simp add: sublist_Cons_right)
  qed
qed

lemma law_chain:
  "(str_includes text ''court'' \<or> str_includes text ''case'' \<or> str_includes text ''filing''
            \<or> str_includes text ''criminal'' \<or> str_includes text ''prosecution''
            \<or> str_includes text ''dps'' \<or> str_includes text ''crime''
            \<or> str_includes text ''violation'' \<or> str_includes text ''penalty'')
   \<longleftrightarrow> (\<exists>kw \<in> set law_terms. sublist kw text)"
  by (simp add: law_terms_def str_includes_sublist)

lemma law_chain_m:
  "(str_includes text ''court'' \<or> str_includes text ''case'' \<or> str_includes text ''filing''
            \<or> str_includes text ''criminal'' \<or> str_includes text ''prosecution''
            \<or> str_includes text ''dps'' \<or> str_includes text ''crime''
            \<or> str_includes text ''violation'' \<or> str_includes text ''penalty''
            \<or> str_includes text ''prison'' \<or> str_includes text ''inmate''
            \<or> str_includes text ''release'' \<or> str_includes text ''statute''
            \<or> str_includes text ''penal code'')
   \<longleftrightarrow> (\<exists>kw \<in> set law_terms_m. sublist kw text)"
  by (simp add: law_terms_m_def str_includes_sublist)

lemma news_chain:
  "(str_includes text ''news'' \<or> str_includes text ''report''
            \<or> str_includes text ''press'' \<or> str_includes text ''publication''
            \<or> str_includes text ''announcement'')
   \<longleftrightarrow> (\<exists>kw \<in> set news_terms. sublist kw text)"
  by (simp add: news_terms_def str_includes_sublist)

lemma attorney_chain:
  "(str_includes text ''attorney'' \<or> str_includes text ''lawyer''
            \<or> str_includes text ''license'' \<or> str_includes text ''bar''
            \<or> str_includes text ''permit'' \<or> str_includes text ''compliance'')
   \<longleftrightarrow> (\<exists>kw \<in> set attorney_terms. sublist kw text)"
  by (simp add: attorney_terms_def str_includes_sublist)

text \<open>Each callback pushes the record into the bucket of its first matching category.\<close>

lemma categorize_step_first_match:
  "categorize_step c ds =
     (case first_match law_terms (categorize_text ds) of
        Law_Verification \<Rightarrow> c\<lparr>LAW_VERIFICATION := LAW_VERIFICATION c @ [ds]\<rparr>
      | News \<Rightarrow> c\<lparr>NEWS := NEWS c @ [ds]\<rparr>
      | Attorney_Resource \<Rightarrow> c\<lparr>ATTORNEY_RESOURCE := ATTORNEY_RESOURCE c @ [ds]\<rparr>)"
  unfolding categorize_step_def Let_def law_chain news_chain attorney_chain first_match_def
  by simp

lemma categorize_step_m_first_match:
  "categorize_step_m c ds =
     (case first_match law_terms_m (text_m ds) of
        Law_Verification \<Rightarrow> c\<lparr>LAW_VERIFICATION := LAW_VERIFICATION c @ [ds]\<rparr>
      | News \<Rightarrow> c\<lparr>NEWS := NEWS c @ [ds]\<rparr>
      | Attorney_Resource \<Rightarrow> c\<lparr>ATTORNEY_RESOURCE := ATTORNEY_RESOURCE c @ [ds]\<rparr>)"
  unfolding categorize_step_m_def Let_def law_chain_m news_chain attorney_chain first_match_def
  by simp

lemma foldl_push:
  assumes step: "\<And>c ds. f c ds =
     (case tag ds of
        Law_Verification \<Rightarrow> c\<lparr>LAW_VERIFICATION := LAW_VERIFICATION c @ [ds]\<rparr>
      | News \<Rightarrow> c\<lparr>NEWS := NEWS c @ [ds]\<rparr>
      | Attorney_Resource \<Rightarrow> c\<lparr>ATTORNEY_RESOURCE := ATTORNEY_RESOURCE c @ [ds]\<rparr>)"
  shows "foldl f c xs =
     \<lparr> LAW_VERIFICATION = LAW_VERIFICATION c @ filter (\<lambda>ds. tag ds = Law_Verification) xs,
       NEWS = NEWS c @ filter (\<lambda>ds. tag ds = News) xs,
       ATTORNEY_RESOURCE = ATTORNEY_RESOURCE c @ filter (\<lambda>ds. tag ds = Attorney_Resource) xs \<rparr>"
proof (induction xs arbitrary: c)
  case Nil
  then show ?case by simp
next
  case (Cons x xs)
  have "foldl f c (x # xs) = foldl f (f c x) xs" by simp
  also have "\<dots> =
     \<lparr> LAW_VERIFICATION = LAW_VERIFICATION (f c x) @ filter (\<lambda>ds. tag ds = Law_Verification) xs,
       NEWS = NEWS (f c x) @ filter (\<lambda>ds. tag ds = News) xs,
       ATTORNEY_RESOURCE = ATTORNEY_RESOURCE (f c x) @ filter (\<lambda>ds. tag ds = Attorney_Resource) xs \<rparr>"
    by (rule Cons.IH)
  also have "\<dots> =
     \<lparr> LAW_VERIFICATION = LAW_VERIFICATION c @ filter (\<lambda>ds. tag ds = Law_Verification) (x # xs),
       NEWS = NEWS c @ filter (\<lambda>ds. tag ds = News) (x # xs),
       ATTORNEY_RESOURCE = ATTORNEY_RESOURCE c @ filter (\<lambda>ds. tag ds = Attorney_Resource) (x # xs) \<rparr>"
    by (cases "tag x") (simp_all add: step [of c x])
  finally show ?case .
qed

lemma mset_three_buckets:
  "mset (filter (\<lambda>ds. tag ds = Law_Verification) xs) + mset (filter (\<lambda>ds. tag ds = News) xs)
     + mset (filter (\<lambda>ds. tag ds = Attorney_Resource) xs) = mset xs"
proof (induction xs)
  case Nil
  then show ?case by simp
next
  case (Cons x xs)
  then show ?case by (cases "tag x") simp_all
qed

lemma foldl_concat_values:
  "foldl (\<lambda>acc (src, dss). acc @ dss) acc kvs = acc @ concat (map snd kvs)"
  by (induction kvs arbitrary: acc) auto

lemma filterLegalDatasets_buckets:
  "filterLegalDatasets dss =
     (filter is_legal dss,
      \<lparr> LAW_VERIFICATION =
          filter (\<lambda>ds. first_match law_terms (categorize_text ds) = Law_Verification) (filter is_legal dss),
        NEWS = filter (\<lambda>ds. first_match law_terms (categorize_text ds) = News) (filter is_legal dss),
        ATTORNEY_RESOURCE =
          filter (\<lambda>ds. first_match law_terms (categorize_text ds) = Attorney_Resource) (filter is_legal dss) \<rparr>)"
  unfolding filterLegalDatasets_def Let_def
  by (subst foldl_push [where tag = "\<lambda>ds. first_match law_terms (categorize_text ds)"])
     (simp_all add: categorize_step_first_match empty_categorized_def)

lemma filterLegalDatasets_m_buckets:
  "filterLegalDatasets_m by_source =
     (filter is_legal_m (concat (map snd by_source)),
      \<lparr> LAW_VERIFICATION =
          filter (\<lambda>ds. first_match law_terms_m (text_m ds) = Law_Verification)
            (filter is_legal_m (concat (map snd by_source))),
        NEWS = filter (\<lambda>ds. first_match law_terms_m (text_m ds) = News)
            (filter is_legal_m (concat (map snd by_source))),
        ATTORNEY_RESOURCE =
          filter (\<lambda>ds. first_match law_terms_m (text_m ds) = Attorney_Resource)
            (filter is_legal_m (concat (map snd by_source))) \<rparr>)"
  unfolding filterLegalDatasets_m_def Let_def foldl_concat_values
  by (subst foldl_push [where tag = "\<lambda>ds. first_match law_terms_m (text_m ds)"])
     (simp_all add: categorize_step_m_first_match empty_categorized_def)

lemma first_match_court:
  "sublist ''court'' text \<Longrightarrow> first_match law_terms text = Law_Verification"
  "sublist ''court'' text \<Longrightarrow> first_match law_terms_m text = Law_Verification"
  by (auto simp: first_match_def law_terms_def law_terms_m_def)

lemma three_filters:
  assumes L: "L = filter (\<lambda>ds. tag ds = Law_Verification) xs"
      and N: "N = filter (\<lambda>ds. tag ds = News) xs"
      and A: "A = filter (\<lambda>ds. tag ds = Attorney_Resource) xs"
  shows "mset L + mset N + mset A = mset xs"
    and "set L \<inter> set N = {}" and "set L \<inter> set A = {}" and "set N \<inter> set A = {}"
    and "set L \<union> set N \<union> set A = set xs"
proof -
  show "mset L + mset N + mset A = mset xs"
    unfolding L N A by (rule mset_three_buckets)
  show "set L \<inter> set N = {}" "set L \<inter> set A = {}" "set N \<inter> set A = {}"
    unfolding L N A by auto
  show "set L \<union> set N \<union> set A = set xs"
  proof -
    have "\<And>x. tag x = Law_Verification \<or> tag x = News \<or> tag x = Attorney_Resource"
      using category_tag.exhaust by blast
    then show ?thesis unfolding L N A by auto
  qed
qed

text \<open>
  C2. In both crawlers \<open>filterLegalDatasets\<close> puts every record that passes the
  relevance filter into exactly one of the three buckets LAW_VERIFICATION, NEWS,
  ATTORNEY_RESOURCE: the bucket of the first category, tried in that order on the
  lowercased name and description, that has a term in the text, and LAW_VERIFICATION
  when none has. The buckets are disjoint and together hold exactly the relevant
  records; a relevant record whose text contains both "court" and "news" is in
  LAW_VERIFICATION and in no other bucket; a record that is not relevant is in no bucket.
\<close>

theorem classifier_one_category_by_priority:
  assumes single: "filterLegalDatasets dss = (legal, c)"
      and multi: "filterLegalDatasets_m by_source = (legal_m, c_m)"
  shows
    "legal = filter is_legal dss
     \<and> LAW_VERIFICATION c = filter (\<lambda>ds. first_match law_terms (categorize_text ds) = Law_Verification) legal
     \<and> NEWS c = filter (\<lambda>ds. first_match law_terms (categorize_text ds) = News) legal
     \<and> ATTORNEY_RESOURCE c = filter (\<lambda>ds. first_match law_terms (categorize_text ds) = Attorney_Resource) legal
     \<and> mset (LAW_VERIFICATION c) + mset (NEWS c) + mset (ATTORNEY_RESOURCE c) = mset legal
     \<and> set (LAW_VERIFICATION c) \<inter> set (NEWS c) = {}
     \<and> set (LAW_VERIFICATION c) \<inter> set (ATTORNEY_RESOURCE c) = {}
     \<and> set (NEWS c) \<inter> set (ATTORNEY_RESOURCE c) = {}
     \<and> (\<forall>ds. \<not> is_legal ds \<longrightarrow>
            ds \<notin> set (LAW_VERIFICATION c) \<union> set (NEWS c) \<union> set (ATTORNEY_RESOURCE c))
     \<and> (\<forall>ds \<in> set legal. sublist ''court'' (categorize_text ds) \<and> sublist ''news'' (categorize_text ds) \<longrightarrow>
            ds \<in> set (LAW_VERIFICATION c) \<and> ds \<notin> set (NEWS c) \<and> ds \<notin> set (ATTORNEY_RESOURCE c))
     \<and> legal_m = filter is_legal_m (concat (map snd by_source))
     \<and> LAW_VERIFICATION c_m = filter (\<lambda>ds. first_match law_terms_m (text_m ds) = Law_Verification) legal_m
     \<and> NEWS c_m = filter (\<lambda>ds. first_match law_terms_m (text_m ds) = News) legal_m
     \<and> ATTORNEY_RESOURCE c_m = filter (\<lambda>ds. first_match law_terms_m (text_m ds) = Attorney_Resource) legal_m
     \<and> mset (LAW_VERIFICATION c_m) + mset (NEWS c_m) + mset (ATTORNEY_RESOURCE c_m) = mset legal_m
     \<and> set (LAW_VERIFICATION c_m) \<inter> set (NEWS c_m) = {}
     \<and> set (LAW_VERIFICATION c_m) \<inter> set (ATTORNEY_RESOURCE c_m) = {}
     \<and> set (NEWS c_m) \<inter> set (ATTORNEY_RESOURCE c_m) = {}
     \<and> (\<forall>ds. \<not> is_legal_m ds \<longrightarrow>
            ds \<notin> set (LAW_VERIFICATION c_m) \<union> set (NEWS c_m) \<union> set (ATTORNEY_RESOURCE c_m))
     \<and> (\<forall>ds \<in> set legal_m. sublist ''court'' (text_m ds) \<and> sublist ''news'' (text_m ds) \<longrightarrow>
            ds \<in> set (LAW_VERIFICATION c_m) \<and> ds \<notin> set (NEWS c_m) \<and> ds \<notin> set (ATTORNEY_RESOURCE c_m))"
proof -
  let ?tag = "\<lambda>ds. first_match law_terms (categorize_text ds)"
  let ?tag_m = "\<lambda>ds. first_match law_terms_m (text_m ds)"
  from single have legal: "legal = filter is_legal dss"
    and L: "LAW_VERIFICATION c = filter (\<lambda>ds. ?tag ds = Law_Verification) legal"
    and N: "NEWS c = filter (\<lambda>ds. ?tag ds = News) legal"
    and A: "ATTORNEY_RESOURCE c = filter (\<lambda>ds. ?tag ds = Attorney_Resource) legal"
    unfolding filterLegalDatasets_buckets by auto
  from multi have legal_m: "legal_m = filter is_legal_m (concat (map snd by_source))"
    and Lm: "LAW_VERIFICATION c_m = filter (\<lambda>ds. ?tag_m ds = Law_Verification) legal_m"
    and Nm: "NEWS c_m = filter (\<lambda>ds. ?tag_m ds = News) legal_m"
    and Am: "ATTORNEY_RESOURCE c_m = filter (\<lambda>ds. ?tag_m ds = Attorney_Resource) legal_m"
    unfolding filterLegalDatasets_m_buckets by auto
  note part = three_filters [OF L N A]
  note part_m = three_filters [OF Lm Nm Am]
  have out: "\<forall>ds. \<not> is_legal ds \<longrightarrow>
      ds \<notin> set (LAW_VERIFICATION c) \<union> set (NEWS c) \<union> set (ATTORNEY_RESOURCE c)"
    unfolding part(5) legal by simp
  have out_m: "\<forall>ds. \<not> is_legal_m ds \<longrightarrow>
      ds \<notin> set (LAW_VERIFICATION c_m) \<union> set (NEWS c_m) \<union> set (ATTORNEY_RESOURCE c_m)"
    unfolding part_m(5) legal_m by simp
  have court: "\<forall>ds \<in> set legal. sublist ''court'' (categorize_text ds) \<and> sublist ''news'' (categorize_text ds) \<longrightarrow>
      ds \<in> set (LAW_VERIFICATION c) \<and> ds \<notin> set (NEWS c) \<and> ds \<notin> set (ATTORNEY_RESOURCE c)"
    unfolding L N A by (simp add: first_match_court)
  have court_m: "\<forall>ds \<in> set legal_m. sublist ''court'' (text_m ds) \<and> sublist ''news'' (text_m ds) \<longrightarrow>
      ds \<in> set (LAW_VERIFICATION c_m) \<and> ds \<notin> set (NEWS c_m) \<and> ds \<notin> set (ATTORNEY_RESOURCE c_m)"
    unfolding Lm Nm Am by (simp add: first_match_court)
  from legal L N A part(1-4) out court legal_m Lm Nm Am part_m(1-4) out_m court_m
  show ?thesis by blast
qed

theorem classifier_one_category_by_priority_witness:
  "filterLegalDatasets (map api_dataset scenario) =
     ([api_dataset (scenario ! 0), api_dataset (scenario ! 1), api_dataset (scenario ! 3)],
      \<lparr> LAW_VERIFICATION = [api_dataset (scenario ! 0), api_dataset (scenario ! 3)],
        NEWS = [],
        ATTORNEY_RESOURCE = [api_dataset (scenario ! 1)] \<rparr>)
   \<and> filterLegalDatasets_m [(''data.texas.gov'', map (socrata_dataset ''data.texas.gov'') scenario)] =
     ([socrata_dataset ''data.texas.gov'' (scenario ! 0), socrata_dataset ''data.texas.gov'' (scenario ! 1),
       socrata_dataset ''data.texas.gov'' (scenario ! 3)],
      \<lparr> LAW_VERIFICATION = [socrata_dataset ''data.texas.gov'' (scenario ! 0),
                            socrata_dataset ''data.texas.gov'' (scenario ! 3)],
        NEWS = [],
        ATTORNEY_RESOURCE = [socrata_dataset ''data.texas.gov'' (scenario ! 1)] \<rparr>)
   \<and> mset [api_dataset (scenario ! 0), api_dataset (scenario ! 3)] + mset [] + mset [api_dataset (scenario ! 1)]
       = mset [api_dataset (scenario ! 0), api_dataset (scenario ! 1), api_dataset (scenario ! 3)]
   \<and> sublist ''court'' (categorize_text (api_dataset (scenario ! 3)))
   \<and> sublist ''news'' (categorize_text (api_dataset (scenario ! 3)))
   \<and> \<not> is_legal (api_dataset (scenario ! 2))"
proof -
  let ?legal = "[api_dataset (scenario ! 0), api_dataset (scenario ! 1), api_dataset (scenario ! 3)]"
  let ?c = "\<lparr> LAW_VERIFICATION = [api_dataset (scenario ! 0), api_dataset (scenario ! 3)],
        NEWS = [],
        ATTORNEY_RESOURCE = [api_dataset (scenario ! 1)] \<rparr>"
  let ?legal_m = "[socrata_dataset ''data.texas.gov'' (scenario ! 0), socrata_dataset ''data.texas.gov'' (scenario ! 1),
       socrata_dataset ''data.texas.gov'' (scenario ! 3)]"
  let ?c_m = "\<lparr> LAW_VERIFICATION = [socrata_dataset ''data.texas.gov'' (scenario ! 0),
                            socrata_dataset ''data.texas.gov'' (scenario ! 3)],
        NEWS = [],
        ATTORNEY_RESOURCE = [socrata_dataset ''data.texas.gov'' (scenario ! 1)] \<rparr>"
  have single: "filterLegalDatasets (map api_dataset scenario) = (?legal, ?c)"
    by code_simp
  have multi: "filterLegalDatasets_m [(''data.texas.gov'', map (socrata_dataset ''data.texas.gov'') scenario)]
      = (?legal_m, ?c_m)"
    by code_simp
  have court: "str_includes (categorize_text (api_dataset (scenario ! 3))) ''court''"
    and news: "str_includes (categorize_text (api_dataset (scenario ! 3))) ''news''"
    and weather: "\<not> is_legal (api_dataset (scenario ! 2))"
    by code_simp+
  have "mset (LAW_VERIFICATION ?c) + mset (NEWS ?c) + mset (ATTORNEY_RESOURCE ?c) = mset ?legal"
    using classifier_one_category_by_priority [OF single multi] by blast
  with single multi court news weather show ?thesis
    by (simp add: str_includes_sublist)
qed

lemma list_ex_includes:
  "list_ex (\<lambda>kw. str_includes t kw) kws \<longleftrightarrow> (\<exists>kw \<in> set kws. sublist kw t)"
  by (simp add: list_ex_iff str_includes_sublist)

lemma filter_text_present:
  "name ds = Some n \<Longrightarrow> description ds = Some d \<Longrightarrow> category ds = Some c \<Longrightarrow> tags ds = Some ts
   \<Longrightarrow> filter_text ds = spec_relevance_text ds"
  by (simp add: filter_text_def spec_relevance_text_def)

text \<open>
  C6, as amended. In the single-source crawler a record is relevant exactly when the
  lowercased text "name description category tags" (tags joined by spaces) contains one
  of its 32 keywords; for a record that has all four attributes this is the test the
  specification words. In the multi-source crawler a record is relevant exactly when
  the lowercased text "name description" contains one of its 44 keywords: category and
  tags are not read, and changing them never changes the outcome.
\<close>

theorem relevance_filter_per_crawler:
  "(is_legal ds \<longleftrightarrow> (\<exists>kw \<in> set legalKeywords. sublist kw (filter_text ds)))
   \<and> (name ds \<noteq> None \<and> description ds \<noteq> None \<and> category ds \<noteq> None \<and> tags ds \<noteq> None
        \<longrightarrow> (is_legal ds \<longleftrightarrow> spec_relevant legalKeywords ds))
   \<and> fst (filterLegalDatasets dss) = filter is_legal dss
   \<and> (is_legal_m ds \<longleftrightarrow> (\<exists>kw \<in> set legalKeywords_m. sublist kw (text_m ds)))
   \<and> (name ds = Some n \<longrightarrow>
        (is_legal_m ds \<longleftrightarrow>
           (\<exists>kw \<in> set legalKeywords_m. sublist kw (toLowerCase (n @ '' '' @ or_empty (description ds))))))
   \<and> is_legal_m (ds\<lparr>category := c, tags := ts\<rparr>) = is_legal_m ds
   \<and> fst (filterLegalDatasets_m by_source) = filter is_legal_m (concat (map snd by_source))"
proof -
  have single: "is_legal ds \<longleftrightarrow> (\<exists>kw \<in> set legalKeywords. sublist kw (filter_text ds))"
    by (simp add: is_legal_def list_ex_includes)
  have present: "name ds \<noteq> None \<and> description ds \<noteq> None \<and> category ds \<noteq> None \<and> tags ds \<noteq> None
        \<longrightarrow> (is_legal ds \<longleftrightarrow> spec_relevant legalKeywords ds)"
    using filter_text_present [of ds] by (auto simp: single spec_relevant_def)
  have multi: "is_legal_m ds \<longleftrightarrow> (\<exists>kw \<in> set legalKeywords_m. sublist kw (text_m ds))"
    by (simp add: is_legal_m_def list_ex_includes)
  have named: "name ds = Some n \<longrightarrow>
        (is_legal_m ds \<longleftrightarrow>
           (\<exists>kw \<in> set legalKeywords_m. sublist kw (toLowerCase (n @ '' '' @ or_empty (description ds)))))"
    by (simp add: multi text_m_def)
  have blind: "is_legal_m (ds\<lparr>category := c, tags := ts\<rparr>) = is_legal_m ds"
    by (simp add: is_legal_m_def text_m_def)
  have f1: "fst (filterLegalDatasets dss) = filter is_legal dss"
    by (simp add: filterLegalDatasets_buckets)
  have f2: "fst (filterLegalDatasets_m by_source) = filter is_legal_m (concat (map snd by_source))"
    by (simp add: filterLegalDatasets_m_buckets)
  from single present multi named blind f1 f2 show ?thesis by blast
qed

text \<open>
  C6 as stated fails in the multi-source crawler: a listing item named "Parks" with the
  category "Law" and the tag "court" contains keywords in the concatenation of its four
  attributes, and the filter drops it.
\<close>

theorem relevance_filter_ignores_category_and_tags:
  "spec_relevant legalKeywords_m (socrata_dataset ''data.texas.gov'' parks)
   \<and> \<not> is_legal_m (socrata_dataset ''data.texas.gov'' parks)
   \<and> fst (filterLegalDatasets_m [(''data.texas.gov'', [socrata_dataset ''data.texas.gov'' parks])]) = []"
proof -
  have "str_includes (spec_relevance_text (socrata_dataset ''data.texas.gov'' parks)) ''law''"
    by code_simp
  moreover have "''law'' \<in> set legalKeywords_m"
    by (simp add: legalKeywords_m_def)
  ultimately have a: "spec_relevant legalKeywords_m (socrata_dataset ''data.texas.gov'' parks)"
    unfolding spec_relevant_def str_includes_sublist by blast
  have b: "\<not> is_legal_m (socrata_dataset ''data.texas.gov'' parks)"
    by code_simp
  have c: "fst (filterLegalDatasets_m [(''data.texas.gov'', [socrata_dataset ''data.texas.gov'' parks])]) = []"
    by code_simp
  from a b c show ?thesis by blast
qed

theorem relevance_filter_per_crawler_witness:
  "name (api_dataset parks) \<noteq> None \<and> description (api_dataset parks) \<noteq> None
   \<and> category (api_dataset parks) \<noteq> None \<and> tags (api_dataset parks) \<noteq> None
   \<and> is_legal (api_dataset parks) \<and> spec_relevant legalKeywords (api_dataset parks)
   \<and> name (socrata_dataset ''data.texas.gov'' parks) = Some ''Parks''
   \<and> \<not> is_legal_m (socrata_dataset ''data.texas.gov'' parks)
   \<and> \<not> is_legal_m ((socrata_dataset ''data.texas.gov'' parks)\<lparr>category := Some ''court'', tags := None\<rparr>)"
proof -
  let ?s = "api_dataset parks"
  let ?m = "socrata_dataset ''data.texas.gov'' parks"
  have pres: "name ?s \<noteq> None \<and> description ?s \<noteq> None \<and> category ?s \<noteq> None \<and> tags ?s \<noteq> None"
    by (simp add: api_dataset_def parks_def item_def)
  have legal: "is_legal ?s" by code_simp
  have nm: "name ?m = Some ''Parks''"
    by (simp add: socrata_dataset_def parks_def item_def)
  have not_m: "\<not> is_legal_m ?m" by code_simp
  note inst = relevance_filter_per_crawler [where ds = ?s]
  note inst_m = relevance_filter_per_crawler
    [where ds = ?m and c = "Some ''court''" and ts = None and n = "''Parks''"]
  from inst pres legal have spec: "spec_relevant legalKeywords ?s" by blast
  from inst_m not_m have "\<not> is_legal_m (?m\<lparr>category := Some ''court'', tags := None\<rparr>)" by blast
  with pres legal spec nm not_m show ?thesis by blast
qed

section \<open>Properties of the remote-control client\<close>

lemma inv_new: "pending_inv (new_CDPBrowser u)"
  by (simp add: pending_inv_def new_CDPBrowser_def)

lemma send_fields:
  "next_id (fst (send b m p)) = next_id b + 1"
  "sent (fst (send b m p)) = sent b @ [envelope (next_id b) m p]"
  "promises (fst (send b m p)) = promises b @ [None]"
  "pending (fst (send b m p)) = (pending b)(next_id b \<mapsto> length (promises b))"
  "snd (send b m p) = length (promises b)"
  by (simp_all add: send_def Let_def)

lemma inv_send: "pending_inv b \<Longrightarrow> pending_inv (fst (send b m p))"
proof -
  assume b: "pending_inv b"
  then have pos: "0 < next_id b" unfolding pending_inv_def by blast
  have own: "\<And>i h. pending b i = Some h \<Longrightarrow>
      0 < i \<and> i < next_id b \<and> h < length (promises b) \<and> promises b ! h = None"
    using b unfolding pending_inv_def by blast
  have inj: "\<And>i j h. pending b i = Some h \<Longrightarrow> pending b j = Some h \<Longrightarrow> i = j"
    using b unfolding pending_inv_def by blast
  have A: "0 < i \<and> i < next_id b + 1 \<and> h < length (promises b @ [None]) \<and> (promises b @ [None]) ! h = None"
    if "((pending b)(next_id b \<mapsto> length (promises b))) i = Some h" for i h
  proof (cases "i = next_id b")
    case True
    with that pos show ?thesis by (auto simp: nth_append)
  next
    case False
    with that have "pending b i = Some h" by simp
    from own [OF this] show ?thesis by (auto simp: nth_append)
  qed
  have B: "i = j"
    if i: "((pending b)(next_id b \<mapsto> length (promises b))) i = Some h"
      and j: "((pending b)(next_id b \<mapsto> length (promises b))) j = Some h" for i j h
  proof (cases "i = next_id b"; cases "j = next_id b")
    assume "i = next_id b" "j = next_id b"
    then show ?thesis by simp
  next
    assume "i = next_id b" "j \<noteq> next_id b"
    with i j have "h = length (promises b)" "pending b j = Some h" by simp_all
    with own [of j h] show ?thesis by simp
  next
    assume "i \<noteq> next_id b" "j = next_id b"
    with i j have "h = length (promises b)" "pending b i = Some h" by simp_all
    with own [of i h] show ?thesis by simp
  next
    assume "i \<noteq> next_id b" "j \<noteq> next_id b"
    with i j have "pending b i = Some h" "pending b j = Some h" by simp_all
    then show ?thesis by (rule inj)
  qed
  show ?thesis
    unfolding pending_inv_def send_fields
  proof (intro conjI)
    show "0 < next_id b + 1" using pos by simp
    show "\<forall>i h. ((pending b)(next_id b \<mapsto> length (promises b))) i = Some h \<longrightarrow>
        0 < i \<and> i < next_id b + 1 \<and> h < length (promises b @ [None]) \<and> (promises b @ [None]) ! h = None"
      using A by blast
    show "\<forall>i j h. ((pending b)(next_id b \<mapsto> length (promises b))) i = Some h
        \<and> ((pending b)(next_id b \<mapsto> length (promises b))) j = Some h \<longrightarrow> i = j"
      using B by blast
  qed
qed

lemma onmessage_cases:
  assumes "onmessage b (Parsed msg) = Inr b'"
  obtains (dropped) "b' = b"
    "\<not> (\<exists>i h. get_prop msg ''id'' = Some (JNum i) \<and> i \<noteq> 0 \<and> pending b i = Some h)"
  | (resolved) i h where "get_prop msg ''id'' = Some (JNum i)" "i \<noteq> 0" "pending b i = Some h"
      "b' = b\<lparr> promises := resolve (promises b) h (result_or_msg msg), pending := (pending b)(i := None) \<rparr>"
proof (cases "get_prop msg ''id''")
  case None
  with assms have "b' = b"
    by (auto simp: onmessage_def truthy_prop_def split: if_splits)
  with None dropped show ?thesis by simp
next
  case (Some v)
  show ?thesis
  proof (cases v)
    case (JNum i)
    show ?thesis
    proof (cases "i \<noteq> 0 \<and> pending b i \<noteq> None")
      case True
      then obtain h where h: "pending b i = Some h" by auto
      with True Some JNum assms
      have "b' = b\<lparr> promises := resolve (promises b) h (result_or_msg msg), pending := (pending b)(i := None) \<rparr>"
        by (auto simp: onmessage_def truthy_prop_def split: if_splits)
      with Some JNum True h resolved show ?thesis by blast
    next
      case False
      with Some JNum assms have "b' = b"
        by (auto simp: onmessage_def truthy_prop_def split: if_splits)
      with Some JNum False dropped show ?thesis by auto
    qed
  qed (use Some assms dropped in \<open>auto simp: onmessage_def truthy_prop_def split: if_splits\<close>)
qed

lemma onmessage_next_id: "onmessage b fr = Inr b' \<Longrightarrow> next_id b' = next_id b \<and> sent b' = sent b \<and> length (promises b') = length (promises b)"
  by (cases fr) (auto simp: onmessage_def resolve_def split: if_splits option.splits)

lemma inv_onmessage:
  assumes "pending_inv b" "onmessage b fr = Inr b'"
  shows "pending_inv b'"
proof (cases fr)
  case Unparseable
  with assms show ?thesis by (simp add: onmessage_def)
next
  case (Parsed msg)
  with assms(2) have "onmessage b (Parsed msg) = Inr b'" by simp
  then show ?thesis
  proof (cases rule: onmessage_cases)
    case dropped
    with assms show ?thesis by simp
  next
    case (resolved i h)
    from assms(1) resolved(3) have h: "h < length (promises b)" "promises b ! h = None"
      by (auto simp: pending_inv_def)
    have other: "\<And>j k. j \<noteq> i \<Longrightarrow> pending b j = Some k \<Longrightarrow> k \<noteq> h"
      using assms(1) resolved(3) unfolding pending_inv_def by blast
    have own: "\<And>j k. pending b j = Some k \<Longrightarrow>
        0 < j \<and> j < next_id b \<and> k < length (promises b) \<and> promises b ! k = None"
      using assms(1) unfolding pending_inv_def by blast
    have inj: "\<And>j l k. pending b j = Some k \<Longrightarrow> pending b l = Some k \<Longrightarrow> j = l"
      using assms(1) unfolding pending_inv_def by blast
    have A: "0 < j \<and> j < next_id b' \<and> k < length (promises b') \<and> promises b' ! k = None"
      if "pending b' j = Some k" for j k
    proof -
      from that have j: "j \<noteq> i" "pending b j = Some k"
        by (auto simp: resolved(4) split: if_splits)
      from other [OF j] own [OF j(2)] h show ?thesis
        by (simp add: resolved(4) resolve_def)
    qed
    have B: "j = l" if "pending b' j = Some k" "pending b' l = Some k" for j l k
    proof -
      from that have "pending b j = Some k" "pending b l = Some k"
        by (auto simp: resolved(4) split: if_splits)
      then show ?thesis by (rule inj)
    qed
    have C: "0 < next_id b'" using assms(1) by (simp add: pending_inv_def resolved(4))
    show ?thesis
      unfolding pending_inv_def
    proof (intro conjI)
      show "0 < next_id b'" by (rule C)
      show "\<forall>i h. pending b' i = Some h \<longrightarrow>
          0 < i \<and> i < next_id b' \<and> h < length (promises b') \<and> promises b' ! h = None"
        using A by blast
      show "\<forall>i j h. pending b' i = Some h \<and> pending b' j = Some h \<longrightarrow> i = j"
        using B by blast
    qed
  qed
qed

lemma replay_append:
  "replay b (es @ fs) = (case replay b es of Inl e \<Rightarrow> Inl e | Inr b' \<Rightarrow> replay b' fs)"
proof (induction es arbitrary: b)
  case Nil
  then show ?case by simp
next
  case (Cons e es)
  show ?case
  proof (cases e)
    case (Send m p)
    then show ?thesis by (simp add: Cons.IH)
  next
    case (Receive fr)
    then show ?thesis by (cases "onmessage b fr") (simp_all add: Cons.IH)
  qed
qed

lemma onmessage_deliverable: "deliverable (Receive fr) \<Longrightarrow> \<exists>b'. onmessage b fr = Inr b'"
  by (cases fr) (auto simp: onmessage_def split: option.splits)

lemma replay_total: "\<forall>e \<in> set es. deliverable e \<Longrightarrow> \<exists>b'. replay b es = Inr b'"
proof (induction es arbitrary: b)
  case Nil
  then show ?case by simp
next
  case (Cons e es)
  show ?case
  proof (cases e)
    case (Send m p)
    with Cons show ?thesis by simp
  next
    case (Receive fr)
    with Cons.prems obtain b1 where "onmessage b fr = Inr b1"
      using onmessage_deliverable [of fr b] by auto
    with Receive Cons show ?thesis by simp
  qed
qed


lemma replay_inv: "pending_inv b \<Longrightarrow> replay b es = Inr b' \<Longrightarrow> pending_inv b'"
proof (induction es arbitrary: b)
  case Nil
  then show ?case by simp
next
  case (Cons e es)
  show ?case
  proof (cases e)
    case (Send m p)
    with Cons.prems Cons.IH [of "fst (send b m p)"] show ?thesis
      by (simp add: inv_send)
  next
    case (Receive fr)
    with Cons.prems obtain b1 where b1: "onmessage b fr = Inr b1" "replay b1 es = Inr b'"
      by (auto split: sum.splits)
    from inv_onmessage [OF Cons.prems(1) b1(1)] Cons.IH b1(2) show ?thesis by blast
  qed
qed

lemma replay_counts:
  "replay b es = Inr b' \<Longrightarrow>
     next_id b' = next_id b + int (count_sends es)
     \<and> length (promises b') = length (promises b) + count_sends es
     \<and> map envelope_id (sent b') =
         map envelope_id (sent b) @ map Some [next_id b .. next_id b + int (count_sends es) - 1]"
proof (induction es arbitrary: b)
  case Nil
  then show ?case by (simp add: count_sends_def)
next
  case (Cons e es)
  show ?case
  proof (cases e)
    case (Send m p)
    with Cons.prems have "replay (fst (send b m p)) es = Inr b'" by simp
    note ih = Cons.IH [OF this]
    have n: "count_sends (e # es) = Suc (count_sends es)"
      using Send by (simp add: count_sends_def)
    have "[next_id b .. next_id b + int (Suc (count_sends es)) - 1]
        = next_id b # [next_id b + 1 .. next_id b + 1 + int (count_sends es) - 1]"
      by (subst upto_rec1) (simp_all add: add.commute add.left_commute)
    with ih show ?thesis
      unfolding n by (simp add: send_fields envelope_def)
  next
    case (Receive fr)
    with Cons.prems obtain b1 where b1: "onmessage b fr = Inr b1" "replay b1 es = Inr b'"
      by (auto split: sum.splits)
    from Cons.IH [OF b1(2)] onmessage_next_id [OF b1(1)] Receive show ?thesis
      by (simp add: count_sends_def)
  qed
qed

lemma length_resolve: "length (resolve ps k w) = length ps"
  by (simp add: resolve_def)

lemma resolve_keeps: "h < length ps \<Longrightarrow> ps ! h = Some v \<Longrightarrow> resolve ps k w ! h = Some v"
  by (auto simp: resolve_def nth_list_update)

lemma resolved_stays:
  "h < length (promises b) \<Longrightarrow> promises b ! h = Some v \<Longrightarrow> replay b es = Inr b'
   \<Longrightarrow> promises b' ! h = Some v"
proof (induction es arbitrary: b)
  case Nil
  then show ?case by simp
next
  case (Cons e es)
  show ?case
  proof (cases e)
    case (Send m p)
    with Cons.prems have "replay (fst (send b m p)) es = Inr b'" by simp
    moreover have "h < length (promises (fst (send b m p)))"
      "promises (fst (send b m p)) ! h = Some v"
      using Cons.prems by (simp_all add: send_fields nth_append)
    ultimately show ?thesis using Cons.IH by blast
  next
    case (Receive fr)
    with Cons.prems obtain b1 where b1: "onmessage b fr = Inr b1" "replay b1 es = Inr b'"
      by (auto split: sum.splits)
    have "h < length (promises b1) \<and> promises b1 ! h = Some v"
    proof (cases fr)
      case Unparseable
      with b1 show ?thesis by (simp add: onmessage_def)
    next
      case (Parsed msg)
      with b1(1) have "onmessage b (Parsed msg) = Inr b1" by simp
      then show ?thesis
        using Cons.prems(1,2)
        by (cases rule: onmessage_cases) (simp_all add: resolve_keeps length_resolve)
    qed
    with Cons.IH b1(2) show ?thesis by blast
  qed
qed

lemma awaited_promise:
  "pending_inv b \<Longrightarrow> pending b mid = Some h \<Longrightarrow> replay b es = Inr b'
   \<Longrightarrow> promises b' ! h = map_option result_or_msg (find (has_id mid) (received es))"
proof (induction es arbitrary: b)
  case Nil
  then show ?case by (auto simp: pending_inv_def)
next
  case (Cons e es)
  from Cons.prems(1,2) have own: "0 < mid" "mid < next_id b" "h < length (promises b)" "promises b ! h = None"
    unfolding pending_inv_def by blast+
  show ?case
  proof (cases e)
    case (Send m p)
    with Cons.prems have r: "replay (fst (send b m p)) es = Inr b'" by simp
    have "pending (fst (send b m p)) mid = Some h"
      using own Cons.prems(2) by (simp add: send_fields)
    from Cons.IH [OF inv_send [OF Cons.prems(1)] this r] Send show ?thesis by simp
  next
    case (Receive fr)
    with Cons.prems obtain b1 where b1: "onmessage b fr = Inr b1" "replay b1 es = Inr b'"
      by (auto split: sum.splits)
    note inv1 = inv_onmessage [OF Cons.prems(1) b1(1)]
    show ?thesis
    proof (cases fr)
      case Unparseable
      with b1 show ?thesis by (simp add: onmessage_def)
    next
      case (Parsed msg)
      with b1(1) have "onmessage b (Parsed msg) = Inr b1" by simp
      then show ?thesis
      proof (cases rule: onmessage_cases)
        case dropped
        with Cons.prems(2) own have "\<not> has_id mid msg" by (auto simp: has_id_def)
        with Cons.IH [OF inv1 _ b1(2)] dropped Cons.prems(2) Receive Parsed show ?thesis by simp
      next
        case (resolved i k)
        show ?thesis
        proof (cases "i = mid")
          case True
          with resolved Cons.prems(2) have k: "k = h" by simp
          have "promises b1 ! h = Some (result_or_msg msg)" "h < length (promises b1)"
            using own by (simp_all add: resolved(4) k resolve_def)
          from resolved_stays [OF this(2,1) b1(2)] True resolved(1) Receive Parsed show ?thesis
            by (simp add: has_id_def)
        next
          case False
          then have "pending b1 mid = Some h"
            using Cons.prems(2) by (simp add: resolved(4))
          from Cons.IH [OF inv1 this b1(2)] False resolved(1) Receive Parsed show ?thesis
            by (simp add: has_id_def)
        qed
      qed
    qed
  qed
qed

lemma replay_split:
  assumes "replay b (pre @ Send m p # post) = Inr b'"
  obtains b0 where "replay b pre = Inr b0" "replay (fst (send b0 m p)) post = Inr b'"
proof (cases "replay b pre")
  case (Inl e)
  with assms show ?thesis by (simp add: replay_append)
next
  case (Inr b0)
  with assms have "replay (fst (send b0 m p)) post = Inr b'" by (simp add: replay_append)
  with Inr that show ?thesis by blast
qed

lemma new_fields:
  "next_id (new_CDPBrowser u) = 1" "promises (new_CDPBrowser u) = []" "sent (new_CDPBrowser u) = []"
  by (simp_all add: new_CDPBrowser_def)

text \<open>
  C1. On a connected client, through any sequence of sends and of incoming messages
  that parse to a value other than \<open>null\<close>, the ids of the envelopes sent are
  1, 2, 3, ... in order (strictly increasing, none used twice), and the promise returned
  by each send is settled with \<open>msg.result || msg\<close> of the first message arriving after
  the send whose \<open>id\<close> is the id assigned to it, and is unsettled while no such message
  has come. In particular, when two commands are sent and their replies arrive in
  the opposite order, each promise gets its own reply.
\<close>

theorem correlation_ids_and_responses:
  assumes ok: "\<forall>e \<in> set es. deliverable e"
  shows "\<exists>b. replay (new_CDPBrowser u) es = Inr b
      \<and> map envelope_id (sent b) = map Some [1 .. int (count_sends es)]
      \<and> sorted_wrt (<) [1 .. int (count_sends es)] \<and> distinct [1 .. int (count_sends es)]
      \<and> (\<forall>pre m p post. es = pre @ Send m p # post \<longrightarrow>
            (\<exists>b0. replay (new_CDPBrowser u) pre = Inr b0
               \<and> next_id b0 = 1 + int (count_sends pre)
               \<and> last (sent (fst (send b0 m p))) = envelope (next_id b0) m p
               \<and> snd (send b0 m p) = count_sends pre
               \<and> promises b ! snd (send b0 m p) =
                   map_option result_or_msg (find (has_id (next_id b0)) (received post))))
      \<and> (truthy r1 \<and> truthy r2 \<longrightarrow>
            (\<exists>b2. replay (new_CDPBrowser u)
                    [Send m1 p1, Send m2 p2,
                     Receive (Parsed (JObj [(''id'', JNum 2), (''result'', r2)])),
                     Receive (Parsed (JObj [(''id'', JNum 1), (''result'', r1)]))] = Inr b2
                 \<and> promises b2 = [Some r1, Some r2]))"
proof -
  from replay_total [OF ok] obtain b where b: "replay (new_CDPBrowser u) es = Inr b" by blast
  from replay_counts [OF b]
  have ids: "map envelope_id (sent b) = map Some [1 .. int (count_sends es)]"
    by (simp add: new_fields)
  have incr: "sorted_wrt (<) [1 .. int (count_sends es)]" "distinct [1 .. int (count_sends es)]"
    by (simp_all add: sorted_wrt_upto)
  have each: "\<exists>b0. replay (new_CDPBrowser u) pre = Inr b0
               \<and> next_id b0 = 1 + int (count_sends pre)
               \<and> last (sent (fst (send b0 m p))) = envelope (next_id b0) m p
               \<and> snd (send b0 m p) = count_sends pre
               \<and> promises b ! snd (send b0 m p) =
                   map_option result_or_msg (find (has_id (next_id b0)) (received post))"
    if es: "es = pre @ Send m p # post" for pre m p post
  proof -
    from b es obtain b0 where b0: "replay (new_CDPBrowser u) pre = Inr b0"
      and rest: "replay (fst (send b0 m p)) post = Inr b"
      by (auto elim: replay_split)
    from replay_counts [OF b0] have n: "next_id b0 = 1 + int (count_sends pre)"
      and len: "length (promises b0) = count_sends pre"
      by (simp_all add: new_fields)
    have inv0: "pending_inv b0" by (rule replay_inv [OF inv_new b0])
    have waiting: "pending (fst (send b0 m p)) (next_id b0) = Some (length (promises b0))"
      by (simp add: send_fields)
    from awaited_promise [OF inv_send [OF inv0] waiting rest]
    have "promises b ! snd (send b0 m p) =
        map_option result_or_msg (find (has_id (next_id b0)) (received post))"
      by (simp add: send_fields)
    with b0 n len show ?thesis by (auto simp: send_fields)
  qed
  have swap: "truthy r1 \<and> truthy r2 \<longrightarrow>
            (\<exists>b2. replay (new_CDPBrowser u)
                    [Send m1 p1, Send m2 p2,
                     Receive (Parsed (JObj [(''id'', JNum 2), (''result'', r2)])),
                     Receive (Parsed (JObj [(''id'', JNum 1), (''result'', r1)]))] = Inr b2
                 \<and> promises b2 = [Some r1, Some r2])"
    by (simp add: new_CDPBrowser_def send_def onmessage_def Let_def resolve_def result_or_msg_def
        truthy_prop_def)
  from b ids incr each swap show ?thesis by blast
qed

theorem correlation_ids_and_responses_witness:
  "list_all deliverable trace0
   \<and> (\<exists>b. replay (new_CDPBrowser ''ws://localhost:9222/devtools/page/1'') trace0 = Inr b
        \<and> map envelope_id (sent b) = [Some 1, Some 2]
        \<and> promises b ! 0 = Some (JObj [(''id'', JNum 1), (''error'', JObj [(''code'', JNum (-32000))])])
        \<and> promises b ! 1 = Some (JObj [(''frameId'', JStr ''F'')]))"
proof -
  let ?u = "''ws://localhost:9222/devtools/page/1''"
  have ok: "\<forall>e \<in> set trace0. deliverable e"
    by (simp add: trace0_def)
  from correlation_ids_and_responses [OF ok, of ?u]
  obtain b where b: "replay (new_CDPBrowser ?u) trace0 = Inr b"
    and ids: "map envelope_id (sent b) = map Some [1 .. int (count_sends trace0)]"
    and each: "\<And>pre m p post. trace0 = pre @ Send m p # post \<Longrightarrow>
            (\<exists>b0. replay (new_CDPBrowser ?u) pre = Inr b0
               \<and> next_id b0 = 1 + int (count_sends pre)
               \<and> last (sent (fst (send b0 m p))) = envelope (next_id b0) m p
               \<and> snd (send b0 m p) = count_sends pre
               \<and> promises b ! snd (send b0 m p) =
                   map_option result_or_msg (find (has_id (next_id b0)) (received post)))"
    by blast
  have n: "[1 .. int (count_sends trace0)] = [1, 2]"
    by (simp add: trace0_def count_sends_def upto_rec1)
  have first: "promises b ! 0 = Some (JObj [(''id'', JNum 1), (''error'', JObj [(''code'', JNum (-32000))])])"
    using each [of "[]" "''Runtime.enable''" "JObj []" "tl trace0"]
    by (auto simp: trace0_def count_sends_def has_id_def result_or_msg_def)
  have second: "promises b ! 1 = Some (JObj [(''frameId'', JStr ''F'')])"
    using each [of "take 2 trace0" "''Page.enable''" "JObj []" "drop 3 trace0"]
    by (auto simp: trace0_def count_sends_def has_id_def result_or_msg_def)
  from ok b ids n first second show ?thesis
    by (auto simp: list_all_iff)
qed

lemma get_prop_value: "r \<noteq> JNull \<Longrightarrow> get_prop r k = lookup_path r [k]"
  by (cases r) (auto split: option.splits)

text \<open>
  C5, as amended. \<open>evaluate\<close> sends one \<open>Runtime.evaluate\<close> command carrying the
  expression and returns the \<open>.result.value\<close> field of the resolved payload when that
  field is present, and \<open>undefined\<close> when it is absent.
\<close>

theorem evaluate_returns_value_or_undefined:
  "fst (evaluate b expression) = fst (send b ''Runtime.evaluate'' (JObj [(''expression'', JStr expression)]))
   \<and> (payload \<noteq> JNull \<longrightarrow> evaluate_return payload = Inr (lookup_path payload [''result'', ''value'']))
   \<and> (payload \<noteq> JNull \<and> lookup_path payload [''result'', ''value''] = Some v \<longrightarrow>
         evaluate_return payload = Inr (Some v))
   \<and> (payload \<noteq> JNull \<and> lookup_path payload [''result'', ''value''] = None \<longrightarrow>
         evaluate_return payload = Inr None)"
proof -
  have main: "evaluate_return payload = Inr (lookup_path payload [''result'', ''value''])"
    if "payload \<noteq> JNull"
  proof (cases payload)
    case (JObj kvs)
    show ?thesis
    proof (cases "map_of kvs ''result''")
      case None
      with JObj show ?thesis by (simp add: evaluate_return_def)
    next
      case (Some r)
      with JObj show ?thesis
        by (cases r) (auto simp: evaluate_return_def split: option.splits)
    qed
  qed (use that in \<open>simp_all add: evaluate_return_def\<close>)
  then show ?thesis by (simp add: evaluate_def)
qed

text \<open>
  C5 as stated fails: for an error reply, whose payload has no \<open>.result.value\<close>, the
  source returns \<open>undefined\<close>, not the text "no value".
\<close>

theorem evaluate_no_value_default_absent:
  "evaluate_return (result_or_msg error_reply) = Inr None
   \<and> spec_evaluate_return (result_or_msg error_reply) = JStr ''no value''"
  by (simp add: evaluate_return_def spec_evaluate_return_def result_or_msg_def error_reply_def)

theorem evaluate_returns_value_or_undefined_witness:
  "result_or_msg value_reply \<noteq> JNull
   \<and> lookup_path (result_or_msg value_reply) [''result'', ''value''] = Some (JStr ''[]'')
   \<and> evaluate_return (result_or_msg value_reply) = Inr (Some (JStr ''[]''))
   \<and> result_or_msg error_reply \<noteq> JNull
   \<and> lookup_path (result_or_msg error_reply) [''result'', ''value''] = None
   \<and> evaluate_return (result_or_msg error_reply) = Inr None"
proof -
  have a: "result_or_msg value_reply \<noteq> JNull"
    and b: "lookup_path (result_or_msg value_reply) [''result'', ''value''] = Some (JStr ''[]'')"
    and c: "result_or_msg error_reply \<noteq> JNull"
    and d: "lookup_path (result_or_msg error_reply) [''result'', ''value''] = None"
    by (simp_all add: result_or_msg_def value_reply_def error_reply_def)
  from evaluate_returns_value_or_undefined [of _ _ "result_or_msg value_reply" "JStr ''[]''"] a b
  have e: "evaluate_return (result_or_msg value_reply) = Inr (Some (JStr ''[]''))" by blast
  from evaluate_returns_value_or_undefined [of _ _ "result_or_msg error_reply"] c d
  have f: "evaluate_return (result_or_msg error_reply) = Inr None" by blast
  from a b c d e f show ?thesis by blast
qed

text \<open>
  C4. A message that is not JSON makes the handler throw: the exception leaves
  \<open>onmessage\<close>, the message is not dropped, and the reply that follows is not
  delivered to the pending command.
\<close>

theorem malformed_frame_throws:
  "onmessage b Unparseable = Inl SyntaxError
   \<and> onmessage b (Parsed JNull) = Inl TypeError
   \<and> replay (new_CDPBrowser u)
        [Send ''Page.enable'' (JObj []), Receive Unparseable,
         Receive (Parsed (JObj [(''id'', JNum 1), (''result'', JObj [])]))] = Inl SyntaxError"
  by (simp add: onmessage_def)

section \<open>Properties of the reachability probe\<close>

lemma settle_settled: "p \<noteq> Pending \<Longrightarrow> settle p v = p"
  by (cases p) (simp_all add: settle_def)

lemma on_request_event_settled: "p \<noteq> Pending \<Longrightarrow> on_request_event p e = p"
  by (cases e) (simp_all add: settle_settled)

lemma foldl_settled: "p \<noteq> Pending \<Longrightarrow> foldl on_request_event p evs = p"
  by (induction evs arbitrary: p) (simp_all add: on_request_event_settled)

lemma foldl_not_rejected: "p \<noteq> Rejected e \<Longrightarrow> foldl on_request_event p evs \<noteq> Rejected e"
proof (induction evs arbitrary: p)
  case Nil
  then show ?case by simp
next
  case (Cons ev evs)
  have "on_request_event p ev \<noteq> Rejected e"
    using Cons.prems by (cases ev; cases p) (simp_all add: settle_def)
  then show ?case using Cons.IH by simp
qed

text \<open>
  C9, as amended. For every address that \<open>https.get\<close> accepts, \<open>checkReachability\<close>
  issues a single request, to that address, and its promise settles with the first
  thing the request emits: \<open>true\<close> exactly when that is a response with status 200,
  \<open>false\<close> for a response with any other status and for a transport error. The promise
  is never rejected; while the request has emitted nothing it is pending.
\<close>

theorem reachability_true_iff_status_200:
  assumes accepted: "https_get u = Emits evs"
  shows "requested (checkReachability https_get u) = [u]
   \<and> outcome (checkReachability https_get u) \<noteq> Rejected e
   \<and> (outcome (checkReachability https_get u) = Fulfilled True
        \<longleftrightarrow> (\<exists>later. evs = Response 200 # later))
   \<and> (evs = Response statusCode # later \<longrightarrow>
        outcome (checkReachability https_get u) = Fulfilled (statusCode = 200))
   \<and> (evs = RequestError # later \<longrightarrow>
        outcome (checkReachability https_get u) = Fulfilled False)
   \<and> (evs = [] \<longrightarrow> outcome (checkReachability https_get u) = Pending)
   \<and> reachable_now w a = (request w a = Response 200)"
proof -
  have out: "outcome (checkReachability https_get u) = foldl on_request_event Pending evs"
    by (simp add: checkReachability_def accepted)
  have one: "requested (checkReachability https_get u) = [u]"
    by (simp add: checkReachability_def)
  have never: "outcome (checkReachability https_get u) \<noteq> Rejected e"
    unfolding out by (rule foldl_not_rejected) simp
  have first_response: "foldl on_request_event Pending (Response code # rest) = Fulfilled (code = 200)"
    for code rest
    by (simp add: settle_def foldl_settled)
  have first_error: "foldl on_request_event Pending (RequestError # rest) = Fulfilled False" for rest
    by (simp add: settle_def foldl_settled)
  have iff: "foldl on_request_event Pending xs = Fulfilled True
      \<longleftrightarrow> (\<exists>rest. xs = Response 200 # rest)" for xs
  proof (cases xs)
    case Nil
    then show ?thesis by simp
  next
    case (Cons ev rest)
    show ?thesis
    proof (cases ev)
      case (Response code)
      with Cons first_response [of code rest] show ?thesis by auto
    next
      case RequestError
      with Cons first_error [of rest] show ?thesis by auto
    qed
  qed
  have now: "reachable_now w a = (request w a = Response 200)"
    unfolding reachable_now_def checkReachability_def using iff [of "[request w a]"] by simp
  from one never iff [of evs] first_response [of statusCode later] first_error [of later] now
  show ?thesis
    unfolding out by auto
qed

text \<open>
  C9 as stated fails: on an address that is no URL, \<open>https.get\<close> throws inside the
  executor and the promise of \<open>checkReachability\<close> is rejected.
\<close>

theorem reachability_rejects_malformed_address:
  "https_only ''not a url'' = Throws TypeError
   \<and> outcome (checkReachability https_only ''not a url'') = Rejected TypeError"
  by (simp add: checkReachability_def https_only_def)

theorem reachability_true_iff_status_200_witness:
  "https_only ''https://txcourts.gov'' = Emits [Response 200]
   \<and> requested (checkReachability https_only ''https://txcourts.gov'') = [''https://txcourts.gov'']
   \<and> outcome (checkReachability https_only ''https://txcourts.gov'') = Fulfilled True
   \<and> outcome (checkReachability (\<lambda>a. Emits [Response 404, RequestError]) ''https://lrl.texas.gov'')
        = Fulfilled False
   \<and> outcome (checkReachability (\<lambda>a. Emits [RequestError]) ''https://sll.texas.gov'')
        = Fulfilled False"
proof -
  have up: "https_only ''https://txcourts.gov'' = Emits [Response 200]"
    by (simp add: https_only_def)
  have missing: "(\<lambda>a. Emits [Response 404, RequestError]) ''https://lrl.texas.gov''
      = Emits [Response 404, RequestError]"
    by simp
  have down: "(\<lambda>a. Emits [RequestError]) ''https://sll.texas.gov'' = Emits [RequestError]"
    by simp
  from up reachability_true_iff_status_200
    [where https_get = https_only and u = "''https://txcourts.gov''" and evs = "[Response 200]"
       and statusCode = 200 and later = "[]"]
  have a: "requested (checkReachability https_only ''https://txcourts.gov'') = [''https://txcourts.gov'']"
    and b: "outcome (checkReachability https_only ''https://txcourts.gov'') = Fulfilled True"
    by simp_all
  from missing reachability_true_iff_status_200
    [where https_get = "\<lambda>a. Emits [Response 404, RequestError]" and u = "''https://lrl.texas.gov''"
       and evs = "[Response 404, RequestError]" and statusCode = 404 and later = "[RequestError]"]
  have c: "outcome (checkReachability (\<lambda>a. Emits [Response 404, RequestError]) ''https://lrl.texas.gov'')
      = Fulfilled False"
    by simp
  from down reachability_true_iff_status_200
    [where https_get = "\<lambda>a. Emits [RequestError]" and u = "''https://sll.texas.gov''"
       and evs = "[RequestError]" and later = "[]"]
  have d: "outcome (checkReachability (\<lambda>a. Emits [RequestError]) ''https://sll.texas.gov'')
      = Fulfilled False"
    by simp
  from up a b c d show ?thesis by blast
qed

section \<open>Properties of the crawlers' runs\<close>

lemma map_of_obj_set: "map_of (obj_set kvs k v) k' = (if k' = k then Some v else map_of kvs k')"
  by (induction kvs) auto

lemma portal_config:
  "map_of TEXAS_DATA_SOURCES ''data.texas.gov'' = Some (snd (hd TEXAS_DATA_SOURCES))"
  "api (snd (hd TEXAS_DATA_SOURCES)) = Some ''https://data.texas.gov/api/views.json''"
  by (simp_all add: TEXAS_DATA_SOURCES_def)

lemma string_of_nat_100: "string_of_nat 100 = ''100''"
  by code_simp

lemma crawlSocrata_failure:
  assumes "\<And>items. fetchJSON w ''https://data.texas.gov/api/views.json?limit=100'' \<noteq> Inr (Listing items)"
  shows "crawlSocrata c w ''data.texas.gov'' 100 =
           (c\<lparr>apiReachability_m := obj_set (apiReachability_m c) ''data.texas.gov'' False\<rparr>, [])"
proof (cases "fetchJSON w ''https://data.texas.gov/api/views.json?limit=100''")
  case (Inl e)
  then show ?thesis
    by (simp add: crawlSocrata_def portal_config string_of_nat_100)
next
  case (Inr b)
  with assms have "b = Not_An_Array" by (cases b) auto
  with Inr show ?thesis
    by (simp add: crawlSocrata_def portal_config string_of_nat_100)
qed

lemma crawlGeneric_keeps:
  "fst entry \<noteq> k \<Longrightarrow>
     map_of (apiReachability_m (fst (crawlGeneric c w entry))) k = map_of (apiReachability_m c) k
     \<and> map_of (datasets_m (fst (crawlGeneric c w entry))) k = map_of (datasets_m c) k"
  by (auto simp: crawlGeneric_def Let_def map_of_obj_set split: sum.splits)

lemma crawl_others_keep:
  "map_of (apiReachability_m (foldl (crawl_other w) c es)) ''data.texas.gov''
     = map_of (apiReachability_m c) ''data.texas.gov''
   \<and> map_of (datasets_m (foldl (crawl_other w) c es)) ''data.texas.gov''
     = map_of (datasets_m c) ''data.texas.gov''"
proof (induction es arbitrary: c)
  case Nil
  then show ?case by simp
next
  case (Cons entry es)
  show ?case
    using Cons.IH [of "crawl_other w c entry"] crawlGeneric_keeps [of entry "''data.texas.gov''" c w]
    by (simp add: crawl_other_def)
qed

lemma crawlAllSources_failure:
  assumes "\<And>items. fetchJSON w ''https://data.texas.gov/api/views.json?limit=100'' \<noteq> Inr (Listing items)"
  shows "map_of (apiReachability_m (crawlAllSources c w)) ''data.texas.gov'' = Some False"
    and "map_of (datasets_m (crawlAllSources c w)) ''data.texas.gov'' = map_of (datasets_m c) ''data.texas.gov''"
  using crawl_others_keep
  by (simp_all add: crawlAllSources_def Let_def crawlSocrata_failure [OF assms] map_of_obj_set)

lemma probe_sources_keep:
  "datasets_m (fst (foldl (probe_source w) state es)) = datasets_m (fst state)
   \<and> legalDatasets_m (fst (foldl (probe_source w) state es)) = legalDatasets_m (fst state)
   \<and> map_of (apiReachability_m (fst (foldl (probe_source w) state es))) ''data.texas.gov''
       = map_of (apiReachability_m (fst state)) ''data.texas.gov''"
proof (induction es arbitrary: state)
  case Nil
  then show ?case by simp
next
  case (Cons entry es)
  show ?case
    using Cons.IH [of "probe_source w state entry"]
    by (simp add: probe_source_def Let_def map_of_obj_set)
qed

lemma probe_sources_untouched:
  "k \<notin> fst ` set es \<Longrightarrow>
     map_of (apiReachability_m (fst (foldl (probe_source w) state es))) k
       = map_of (apiReachability_m (fst state)) k"
proof (induction es arbitrary: state)
  case Nil
  then show ?case by simp
next
  case (Cons entry es)
  then show ?case
    using Cons.IH [of "probe_source w state entry"]
    by (auto simp: probe_source_def Let_def map_of_obj_set)
qed

lemma probe_sources_record:
  "distinct (map fst es) \<Longrightarrow> (src, config) \<in> set es \<Longrightarrow> src \<noteq> ''data.texas.gov'' \<Longrightarrow>
     map_of (apiReachability_m (fst (foldl (probe_source w) state es))) src
       = Some (reachable_now w (baseUrl config))"
proof (induction es arbitrary: state)
  case Nil
  then show ?case by simp
next
  case (Cons entry es)
  show ?case
  proof (cases "entry = (src, config)")
    case True
    with Cons.prems have "src \<notin> fst ` set es" by auto
    note rest = probe_sources_untouched [OF this, of w "probe_source w state entry"]
    have "map_of (apiReachability_m (fst (probe_source w state entry))) src
        = Some (reachable_now w (baseUrl config))"
      using True Cons.prems(3) by (simp add: probe_source_def Let_def map_of_obj_set)
    with rest show ?thesis by simp
  next
    case False
    with Cons.prems have "distinct (map fst es)" "(src, config) \<in> set es" by auto
    from Cons.IH [OF this Cons.prems(3), of "probe_source w state entry"] show ?thesis by simp
  qed
qed

lemma sources_distinct: "distinct (map fst TEXAS_DATA_SOURCES)"
  by (simp add: TEXAS_DATA_SOURCES_def)

lemma run_m_fields:
  "logged_error_m (run_m w b) = None"
  "stats_m (run_m w b) \<noteq> None"
  "files_m (run_m w b) =
     [''/Users/owner/texas_multi_source_data.json'', ''/Users/owner/texas_all_sources_datasets.csv'',
      ''/Users/owner/texas_legal_datasets.csv'']"
  by (simp_all add: run_m_def Let_def split: prod.splits)

lemma run_m_final:
  "datasets_m (final_m (run_m w b))
     = datasets_m (crawlAllSources (if b then initBrowser_m new_crawler_m w else new_crawler_m) w)"
  "map_of (apiReachability_m (final_m (run_m w b))) ''data.texas.gov''
     = map_of (apiReachability_m
         (crawlAllSources (if b then initBrowser_m new_crawler_m w else new_crawler_m) w)) ''data.texas.gov''"
  "(src, config) \<in> set TEXAS_DATA_SOURCES \<Longrightarrow> src \<noteq> ''data.texas.gov'' \<Longrightarrow>
     map_of (apiReachability_m (final_m (run_m w b))) src = Some (reachable_now w (baseUrl config))"
  using probe_sources_keep probe_sources_record [OF sources_distinct]
  by (simp_all add: run_m_def measureAPIReachability_m_def Let_def split: prod.splits)

lemma initBrowser_m_datasets:
  "datasets_m (if b then initBrowser_m new_crawler_m w else new_crawler_m) = []"
  by (simp add: initBrowser_m_def new_crawler_m_def split: sum.splits option.splits prod.splits)

text \<open>
  C7, as amended. In the multi-source crawler a listing request that fails (the
  request's error, text that is not JSON, or a body that is not an array) gives no
  records for the portal, records the portal as unreachable, and stops nothing: the run
  logs no error, probes every other source of the table, computes its statistics and
  writes its files.
\<close>

theorem listing_failure_isolated_in_multi_source_run:
  assumes failed: "\<And>items. fetchJSON w ''https://data.texas.gov/api/views.json?limit=100'' \<noteq> Inr (Listing items)"
  shows "snd (crawlSocrata c w ''data.texas.gov'' 100) = []
     \<and> datasets_m (fst (crawlSocrata c w ''data.texas.gov'' 100)) = datasets_m c
     \<and> map_of (apiReachability_m (fst (crawlSocrata c w ''data.texas.gov'' 100))) ''data.texas.gov'' = Some False
     \<and> map_of (datasets_m (final_m (run_m w withBrowser))) ''data.texas.gov'' = None
     \<and> map_of (apiReachability_m (final_m (run_m w withBrowser))) ''data.texas.gov'' = Some False
     \<and> logged_error_m (run_m w withBrowser) = None
     \<and> stats_m (run_m w withBrowser) \<noteq> None
     \<and> files_m (run_m w withBrowser) =
          [''/Users/owner/texas_multi_source_data.json'', ''/Users/owner/texas_all_sources_datasets.csv'',
           ''/Users/owner/texas_legal_datasets.csv'']
     \<and> (\<forall>(src, config) \<in> set TEXAS_DATA_SOURCES. src \<noteq> ''data.texas.gov'' \<longrightarrow>
           map_of (apiReachability_m (final_m (run_m w withBrowser))) src
             = Some (reachable_now w (baseUrl config)))"
proof -
  let ?c0 = "if withBrowser then initBrowser_m new_crawler_m w else new_crawler_m"
  have one: "snd (crawlSocrata c w ''data.texas.gov'' 100) = []"
    "datasets_m (fst (crawlSocrata c w ''data.texas.gov'' 100)) = datasets_m c"
    "map_of (apiReachability_m (fst (crawlSocrata c w ''data.texas.gov'' 100))) ''data.texas.gov'' = Some False"
    by (simp_all add: crawlSocrata_failure [OF failed] map_of_obj_set)
  have none: "map_of (datasets_m (final_m (run_m w withBrowser))) ''data.texas.gov'' = None"
    using crawlAllSources_failure(2) [OF failed, of ?c0]
    by (simp add: run_m_final(1) initBrowser_m_datasets)
  have unreachable: "map_of (apiReachability_m (final_m (run_m w withBrowser))) ''data.texas.gov'' = Some False"
    using crawlAllSources_failure(1) [OF failed, of ?c0]
    by (simp add: run_m_final(2))
  have others: "\<forall>(src, config) \<in> set TEXAS_DATA_SOURCES. src \<noteq> ''data.texas.gov'' \<longrightarrow>
           map_of (apiReachability_m (final_m (run_m w withBrowser))) src
             = Some (reachable_now w (baseUrl config))"
    using run_m_final(3) by blast
  from one none unreachable others run_m_fields [of w withBrowser] show ?thesis
    by blast
qed

text \<open>
  C7 as stated fails in the single-source crawler: when the listing request fails,
  the run ends in its \<open>catch\<close> with the error logged, and no statistics, scores or
  files are produced.
\<close>

theorem listing_failure_ends_single_source_run:
  "fetchJSON offline ''https://data.texas.gov/api/views.json?limit=100'' = Inl NetworkError
   \<and> logged_error (run offline False) = Some NetworkError
   \<and> stats (run offline False) = None
   \<and> quality (run offline False) = None
   \<and> files (run offline False) = []"
  by (simp add: offline_def run_def discoverDatasetsViaAPI_def string_of_nat_100)

theorem listing_failure_isolated_in_multi_source_run_witness:
  "fetchJSON offline ''https://data.texas.gov/api/views.json?limit=100'' = Inl NetworkError
   \<and> map_of (datasets_m (final_m (run_m offline True))) ''data.texas.gov'' = None
   \<and> map_of (apiReachability_m (final_m (run_m offline True))) ''data.texas.gov'' = Some False
   \<and> logged_error_m (run_m offline True) = None
   \<and> files_m (run_m offline True) =
          [''/Users/owner/texas_multi_source_data.json'', ''/Users/owner/texas_all_sources_datasets.csv'',
           ''/Users/owner/texas_legal_datasets.csv'']
   \<and> map_of (apiReachability_m (final_m (run_m offline True))) ''txcourts.gov'' = Some False"
proof -
  have failed: "\<And>items. fetchJSON offline ''https://data.texas.gov/api/views.json?limit=100'' \<noteq> Inr (Listing items)"
    by (simp add: offline_def)
  have entry: "(''txcourts.gov'', snd (TEXAS_DATA_SOURCES ! 4)) \<in> set TEXAS_DATA_SOURCES"
    by (simp add: TEXAS_DATA_SOURCES_def)
  have down: "reachable_now offline (baseUrl (snd (TEXAS_DATA_SOURCES ! 4))) = False"
    by (simp add: reachable_now_def offline_def checkReachability_def settle_def)
  note inst = listing_failure_isolated_in_multi_source_run [OF failed, of new_crawler_m True]
  from inst entry have "map_of (apiReachability_m (final_m (run_m offline True))) ''txcourts.gov''
      = Some (reachable_now offline (baseUrl (snd (TEXAS_DATA_SOURCES ! 4))))"
    by fastforce
  with inst down show ?thesis by (simp add: offline_def)
qed

text \<open>
  C8. With no datasets to probe, \<open>TexasDataCrawler.measureAPIReachability\<close> computes
  \<open>(0 / 0 * 100).toFixed(1)\<close>, the text "NaN", where the rate is meant to be 0; the
  multi-source crawler guards the division and gives 0. Six successes out of ten give
  "60.0" in both.
\<close>

theorem rate_is_NaN_on_empty_listing:
  "rate (measureAPIReachability ((c :: crawler)\<lparr>datasets := []\<rparr>) (w :: world)) = ''NaN''
   \<and> stats (run (online []) False) = Some \<lparr> reachable = 0, total_n = 0, rate = ''NaN'' \<rparr>
   \<and> spec_rate 0 0 = 0
   \<and> rate_of_m 0 0 = Rate_Number 0
   \<and> rate_of 6 10 = ''60.0''
   \<and> rate_of_m 6 10 = Rate_Text ''60.0''"
proof -
  have a: "rate (measureAPIReachability ((c :: crawler)\<lparr>datasets := []\<rparr>) (w :: world)) = ''NaN''"
    by (simp add: measureAPIReachability_def rate_of_def js_divide_def)
  have b: "stats (run (online []) False) = Some \<lparr> reachable = 0, total_n = 0, rate = ''NaN'' \<rparr>"
    by (simp add: run_def discoverDatasetsViaAPI_def online_def string_of_nat_100
        filterLegalDatasets_def empty_categorized_def measureAPIReachability_def rate_of_def
        js_divide_def Let_def)
  have c: "spec_rate 0 0 = 0" by (simp add: spec_rate_def)
  have d: "rate_of_m 0 0 = Rate_Number 0" by (simp add: rate_of_m_def)
  have e: "rate_of 6 10 = ''60.0''" by code_simp
  have f: "rate_of_m 6 10 = Rate_Text ''60.0''" by code_simp
  from a b c d e f show ?thesis by blast
qed

end
